theory Spec2Isabelle
  imports Complex_Main
begin

section \<open>Ingestion and retrieval routing core of talk2folder\<close>

text \<open>
  A shallow embedding of the parts of the backend that decide how a Drive folder is
  ingested and queried: the chunker and the folder ingestion job
  (\<^verbatim>\<open>app/services/ingestion.py\<close>), the path selector and the uploader
  (\<^verbatim>\<open>app/services/gemini_service.py\<close>), the downloader
  (\<^verbatim>\<open>app/services/google_drive.py\<close>), the manifest store and search
  (\<^verbatim>\<open>app/services/vector_store.py\<close>) and the RAG agent loop
  (\<^verbatim>\<open>app/agent/hybrid_agent.py\<close>).

  Python values are modelled as follows. An \<^verbatim>\<open>int\<close> is an \<^typ>\<open>int\<close>; a
  \<^verbatim>\<open>str\<close> is a list of characters; a \<^verbatim>\<open>dict\<close> with a fixed set of keys
  is a record, an open one is an association list; \<^verbatim>\<open>None\<close> is a constructor or
  \<^const>\<open>None\<close>; a raised exception is the \<^const>\<open>Inl\<close> branch of a sum. The Drive,
  Gemini and Chroma services and the standard library's \<^verbatim>\<open>json\<close> module are
  parameters of the functions that call them.
\<close>

subsection \<open>Python slices\<close>

text \<open>
  \<^verbatim>\<open>xs[s:e]\<close> for integers \<^verbatim>\<open>s\<close> and \<^verbatim>\<open>e\<close>: a negative index counts
  from the end, and every index is clamped to the range of the sequence.
\<close>

definition py_index :: "int \<Rightarrow> int \<Rightarrow> int" where
  "py_index n i = (if i < 0 then max 0 (i + n) else min i n)"

definition py_slice :: "'a list \<Rightarrow> int \<Rightarrow> int \<Rightarrow> 'a list" where
  "py_slice xs s e =
     (let n = int (length xs); s' = py_index n s; e' = py_index n e
      in take (nat (e' - s')) (drop (nat s') xs))"

subsection \<open>The chunker (\<^verbatim>\<open>ingestion.chunk_text\<close>)\<close>

text \<open>
  \<^verbatim>\<open>
  def chunk_text(text, chunk_size=CHUNK_SIZE, overlap=CHUNK_OVERLAP):
      if len(text) <= chunk_size:
          return [text]
      chunks = []
      start = 0
      while start < len(text):
          end = start + chunk_size
          chunk = text[start:end]
          chunks.append(chunk)
          start = end - overlap
      return chunks
  \<close>
  The text is a list over any element type (Python counts code points). The
  \<^verbatim>\<open>while\<close> loop need not terminate, so it is a partial function into
  \<^typ>\<open>'a option\<close>: \<^const>\<open>None\<close> means that the loop runs forever.
\<close>

definition CHUNK_SIZE :: int where "CHUNK_SIZE = 1000"
definition CHUNK_OVERLAP :: int where "CHUNK_OVERLAP = 200"

partial_function (option) chunk_loop ::
  "'a list \<Rightarrow> int \<Rightarrow> int \<Rightarrow> int \<Rightarrow> 'a list list \<Rightarrow> 'a list list option" where
  [code]: "chunk_loop text chunk_size overlap start chunks =
     (if start < int (length text)
      then chunk_loop text chunk_size overlap ((start + chunk_size) - overlap)
             (chunks @ [py_slice text start (start + chunk_size)])
      else Some chunks)"

definition chunk_text :: "'a list \<Rightarrow> int \<Rightarrow> int \<Rightarrow> 'a list list option" where
  "chunk_text text chunk_size overlap =
     (if int (length text) \<le> chunk_size then Some [text]
      else chunk_loop text chunk_size overlap 0 [])"

text \<open>
  Auxiliary notions for stating what the loop computes: the ceiling of a quotient of
  integers, the number of windows still to be produced from a start position, and the
  \<open>k\<close>-th window from a start position.
\<close>

definition ceil_div :: "int \<Rightarrow> int \<Rightarrow> int" where
  "ceil_div a b = - ((- a) div b)"

definition windows_left :: "int \<Rightarrow> int \<Rightarrow> int \<Rightarrow> nat" where
  "windows_left n start step = (if start < n then nat (ceil_div (n - start) step) else 0)"

definition window :: "'a list \<Rightarrow> int \<Rightarrow> int \<Rightarrow> int \<Rightarrow> nat \<Rightarrow> 'a list" where
  "window text chunk_size overlap start k =
     py_slice text (start + int k * (chunk_size - overlap))
                   (start + int k * (chunk_size - overlap) + chunk_size)"

text \<open>
  The chunk count that the specification states for a text of length \<open>n\<close>:
  \<open>\<lceil>(n - O) / (W - O)\<rceil>\<close>.
\<close>

definition spec_chunk_count :: "nat \<Rightarrow> int \<Rightarrow> int \<Rightarrow> int" where
  "spec_chunk_count n chunk_size overlap =
     \<lceil>(real n - real_of_int overlap) / real_of_int (chunk_size - overlap)\<rceil>"

subsection \<open>Python values and file descriptors\<close>

text \<open>
  The values that occur in the dictionaries of the program. \<open>PyOther\<close> stands for a
  value of any other type (a list, a nested dictionary), on which \<^verbatim>\<open>int()\<close> raises
  \<^verbatim>\<open>TypeError\<close>.
\<close>

datatype py_value = PyNone | PyInt int | PyStr string | PyOther

datatype py_error =
  ValueError | TypeError | IndexError | KeyError | TimeoutError | JSONDecodeError
  | Exception string

text \<open>
  A file descriptor as the Drive listing produces it
  (\<^verbatim>\<open>files(id,name,mimeType,size,modifiedTime)\<close> plus the \<^verbatim>\<open>path\<close> that the listing
  adds). The keys \<^verbatim>\<open>size\<close> and \<^verbatim>\<open>path\<close> may be absent, which is \<^const>\<open>None\<close>
  here; a present \<^verbatim>\<open>size\<close> is whatever value the API or a caller has put there
  (the Drive API sends a string of digits).
\<close>

record drive_file =
  f_id :: string
  f_name :: string
  f_path :: "string option"
  f_mimeType :: string
  f_size :: "py_value option"

subsection \<open>\<^verbatim>\<open>int(str)\<close> and \<^verbatim>\<open>str.strip()\<close>\<close>

text \<open>
  A character stands for a code point below 256. Among these, \<^verbatim>\<open>str.isspace\<close>, and
  with it \<^verbatim>\<open>str.strip()\<close>, takes as whitespace the code points 0x09 to 0x0D, 0x1C to
  0x1F, 0x20, 0x85 and 0xA0. \<^verbatim>\<open>int()\<close> skips less: it leaves the code points below 127
  as they are and then skips the C whitespace 0x09 to 0x0D and 0x20, so 0x1C to 0x1F are
  not skipped, while 0x85 and 0xA0 are first turned into spaces.
\<close>

definition is_py_space :: "char \<Rightarrow> bool" where
  "is_py_space c = (c \<in> set [CHR 0x09, CHR 0x0A, CHR 0x0B, CHR 0x0C, CHR 0x0D,
                              CHR 0x1C, CHR 0x1D, CHR 0x1E, CHR 0x1F, CHR 0x20,
                              CHR 0x85, CHR 0xA0])"

definition py_strip :: "string \<Rightarrow> string" where
  "py_strip s = rev (dropWhile is_py_space (rev (dropWhile is_py_space s)))"

definition is_int_space :: "char \<Rightarrow> bool" where
  "is_int_space c = (c \<in> set [CHR 0x09, CHR 0x0A, CHR 0x0B, CHR 0x0C, CHR 0x0D, CHR 0x20,
                               CHR 0x85, CHR 0xA0])"

definition int_strip :: "string \<Rightarrow> string" where
  "int_strip s = rev (dropWhile is_int_space (rev (dropWhile is_int_space s)))"

text \<open>
  Python's \<^verbatim>\<open>int(s)\<close> on a string, base 10: the whitespace around the literal is
  skipped, a sign may precede the digits, the digits are \<^verbatim>\<open>0\<close> to \<^verbatim>\<open>9\<close> (no other
  code point below 256 is a decimal digit), and single underscores may separate digits.
  A literal with more than 4300 digits is refused (the default of
  \<^verbatim>\<open>sys.int_max_str_digits\<close>, which the program does not change; leading zeros count,
  underscores do not). Anything else raises \<^verbatim>\<open>ValueError\<close> too, which is
  \<^const>\<open>None\<close> here.
\<close>

definition is_digit :: "char \<Rightarrow> bool" where
  "is_digit c = (of_char CHR ''0'' \<le> (of_char c :: nat) \<and> (of_char c :: nat) \<le> of_char CHR ''9'')"

definition digit_val :: "char \<Rightarrow> nat" where
  "digit_val c = of_char c - of_char CHR ''0''"

definition int_max_str_digits :: nat where
  "int_max_str_digits = 4300"

fun parse_digits :: "string \<Rightarrow> nat \<Rightarrow> nat option" where
  "parse_digits [] acc = Some acc"
| "parse_digits [c] acc = (if is_digit c then Some (10 * acc + digit_val c) else None)"
| "parse_digits (c # d # ds) acc =
     (if is_digit c then parse_digits (d # ds) (10 * acc + digit_val c)
      else if c = CHR ''_'' \<and> is_digit d then parse_digits ds (10 * acc + digit_val d)
      else None)"

definition parse_unsigned :: "string \<Rightarrow> nat option" where
  "parse_unsigned s =
     (case s of [] \<Rightarrow> None
      | c # cs \<Rightarrow>
          if is_digit c \<and> length (filter is_digit s) \<le> int_max_str_digits
          then parse_digits cs (digit_val c) else None)"

definition py_int_of_str :: "string \<Rightarrow> int option" where
  "py_int_of_str s =
     (case int_strip s of
        [] \<Rightarrow> None
      | c # cs \<Rightarrow>
          if c = CHR ''-'' then map_option (\<lambda>n. - int n) (parse_unsigned cs)
          else if c = CHR ''+'' then map_option int (parse_unsigned cs)
          else map_option int (parse_unsigned (c # cs)))"

text \<open>\<^verbatim>\<open>int(v)\<close> on a value of the program.\<close>

definition py_int :: "py_value \<Rightarrow> py_error + int" where
  "py_int v =
     (case v of
        PyInt i \<Rightarrow> Inr i
      | PyStr s \<Rightarrow> (case py_int_of_str s of Some i \<Rightarrow> Inr i | None \<Rightarrow> Inl ValueError)
      | PyNone \<Rightarrow> Inl TypeError
      | PyOther \<Rightarrow> Inl TypeError)"

subsection \<open>The path selector (\<^verbatim>\<open>gemini_service.should_use_fast_path\<close>)\<close>

definition MAX_FILE_SIZE_BYTES :: int where
  "MAX_FILE_SIZE_BYTES = 10 * 1024 * 1024"

definition MAX_TOTAL_SIZE_BYTES :: int where
  "MAX_TOTAL_SIZE_BYTES = 100 * 1024 * 1024"

definition MAX_FILES_FOR_FAST_PATH :: int where
  "MAX_FILES_FOR_FAST_PATH = 50"

text \<open>
  \<^verbatim>\<open>
  def _get_file_size(f):
      size = f.get("size", 0)
      if size is None:
          return 0
      try:
          return int(size)
      except (ValueError, TypeError):
          return 0
  \<close>
  \<^const>\<open>py_int\<close> raises nothing but the two exceptions that are caught here (lemma
  \<open>py_int_raises\<close> below), so the function always returns an integer.
\<close>

definition get_file_size :: "'a drive_file_scheme \<Rightarrow> int" where
  "get_file_size f =
     (let size = (case f_size f of None \<Rightarrow> PyInt 0 | Some v \<Rightarrow> v)
      in if size = PyNone then 0
         else (case py_int size of Inr i \<Rightarrow> i | Inl e \<Rightarrow> 0))"

text \<open>
  \<^verbatim>\<open>
  def should_use_fast_path(files):
      if len(files) > MAX_FILES_FOR_FAST_PATH:
          return False
      total_size = sum(_get_file_size(f) for f in files)
      if total_size > MAX_TOTAL_SIZE_BYTES:
          return False
      for f in files:
          if _get_file_size(f) > MAX_FILE_SIZE_BYTES:
              return False
      return True
  \<close>
  \<open>py_sum\<close> is the built-in \<^verbatim>\<open>sum\<close>, a left fold from 0; \<open>no_file_too_large\<close> is
  the \<^verbatim>\<open>for\<close> loop with its early return and the final \<^verbatim>\<open>return True\<close>.
\<close>

definition py_sum :: "int list \<Rightarrow> int" where
  "py_sum xs = foldl (+) 0 xs"

fun no_file_too_large :: "'a drive_file_scheme list \<Rightarrow> bool" where
  "no_file_too_large [] = True"
| "no_file_too_large (f # fs) =
     (if MAX_FILE_SIZE_BYTES < get_file_size f then False else no_file_too_large fs)"

definition should_use_fast_path :: "'a drive_file_scheme list \<Rightarrow> bool" where
  "should_use_fast_path files =
     (if MAX_FILES_FOR_FAST_PATH < int (length files) then False
      else let total_size = py_sum (map get_file_size files)
           in if MAX_TOTAL_SIZE_BYTES < total_size then False
              else no_file_too_large files)"

text \<open>A descriptor with a given \<^verbatim>\<open>size\<close> entry, for concrete instances.\<close>

definition file_of_size :: "py_value option \<Rightarrow> drive_file" where
  "file_of_size v =
     \<lparr>f_id = ''id'', f_name = ''name'', f_path = None, f_mimeType = ''text/plain'', f_size = v\<rparr>"

subsection \<open>Dictionaries, list indexing and string helpers\<close>

type_synonym py_dict = "(string \<times> py_value) list"

text \<open>\<^verbatim>\<open>d.get(k)\<close> is \<open>map_of d k\<close>; \<^verbatim>\<open>d.get(k, default)\<close> is \<open>dict_get\<close>.\<close>

definition dict_get :: "py_dict \<Rightarrow> string \<Rightarrow> py_value \<Rightarrow> py_value" where
  "dict_get d k dflt = (case map_of d k of Some v \<Rightarrow> v | None \<Rightarrow> dflt)"

text \<open>\<^verbatim>\<open>xs[i]\<close> for \<open>i \<ge> 0\<close>: out of range raises \<^verbatim>\<open>IndexError\<close>.\<close>

definition py_nth :: "'a list \<Rightarrow> nat \<Rightarrow> py_error + 'a" where
  "py_nth xs i = (if i < length xs then Inr (xs ! i) else Inl IndexError)"

text \<open>\<^verbatim>\<open>sep.join(xs)\<close>, \<^verbatim>\<open>str(n)\<close> for a natural number and \<^verbatim>\<open>s.replace(a, b)\<close> on characters.\<close>

fun py_join :: "string \<Rightarrow> string list \<Rightarrow> string" where
  "py_join sep [] = []"
| "py_join sep [x] = x"
| "py_join sep (x # y # ys) = x @ sep @ py_join sep (y # ys)"

definition digit_char :: "nat \<Rightarrow> char" where
  "digit_char d = char_of (of_char CHR ''0'' + d)"

fun show_nat :: "nat \<Rightarrow> string" where
  "show_nat n = (if n < 10 then [digit_char n] else show_nat (n div 10) @ [digit_char (n mod 10)])"

declare show_nat.simps [simp del]

definition show_int :: "int \<Rightarrow> string" where
  "show_int i = (if i < 0 then CHR ''-'' # show_nat (nat (- i)) else show_nat (nat i))"

definition replace_char :: "char \<Rightarrow> char \<Rightarrow> string \<Rightarrow> string" where
  "replace_char a b s = map (\<lambda>c. if c = a then b else c) s"

subsection \<open>The vector store (\<^verbatim>\<open>vector_store.py\<close>)\<close>

text \<open>
  A Chroma collection maps record ids to records (document text and metadata
  dictionary); the client maps collection names to collections. The model is the
  store's contract as the program uses it: \<^verbatim>\<open>get_or_create_collection\<close>,
  \<^verbatim>\<open>upsert\<close> and \<^verbatim>\<open>get\<close> by id.
\<close>

record chroma_record =
  rec_document :: string
  rec_metadata :: py_dict

type_synonym collection = "string \<rightharpoonup> chroma_record"
type_synonym chroma_client = "string \<rightharpoonup> collection"

definition MANIFEST_PREFIX :: string where
  "MANIFEST_PREFIX = ''_manifest_''"

text \<open>
  \<^verbatim>\<open>
  def _get_collection_name(user_id, folder_id):
      return f"user_{user_id}_folder_{folder_id}".replace("-", "_")
  \<close>
\<close>

definition get_collection_name :: "string \<Rightarrow> string \<Rightarrow> string" where
  "get_collection_name user_id folder_id =
     replace_char CHR ''-'' CHR ''_'' (''user_'' @ user_id @ ''_folder_'' @ folder_id)"

text \<open>
  \<^verbatim>\<open>get_collection\<close> returns a handle on the named collection and creates the
  collection when it does not exist. The handle is the name; the client after the call
  is returned with it.
\<close>

definition get_collection :: "chroma_client \<Rightarrow> string \<Rightarrow> string \<Rightarrow> string \<times> chroma_client" where
  "get_collection client user_id folder_id =
     (let collection_name = get_collection_name user_id folder_id
      in case client collection_name of
           Some c \<Rightarrow> (collection_name, client)
         | None \<Rightarrow> (collection_name, client(collection_name \<mapsto> Map.empty)))"

text \<open>\<^verbatim>\<open>collection.upsert(documents=[d], metadatas=[m], ids=[i])\<close> for one record.\<close>

definition upsert :: "chroma_client \<Rightarrow> string \<Rightarrow> string \<Rightarrow> string \<Rightarrow> py_dict \<Rightarrow> chroma_client" where
  "upsert client collection_name rid doc meta =
     (case client collection_name of
        None \<Rightarrow> client
      | Some c \<Rightarrow>
          client(collection_name \<mapsto> c(rid \<mapsto> \<lparr>rec_document = doc, rec_metadata = meta\<rparr>)))"

text \<open>
  \<^verbatim>\<open>collection.get(ids=[i], include=["metadatas"])["metadatas"]\<close>: the metadata of
  the records found, so a list of at most one dictionary.
\<close>

definition get_metadatas :: "chroma_client \<Rightarrow> string \<Rightarrow> string \<Rightarrow> py_dict list" where
  "get_metadatas client collection_name rid =
     (case client collection_name of
        None \<Rightarrow> []
      | Some c \<Rightarrow> (case c rid of None \<Rightarrow> [] | Some r \<Rightarrow> [rec_metadata r]))"

text \<open>
  A manifest entry is the dictionary with the keys \<^verbatim>\<open>id\<close>, \<^verbatim>\<open>name\<close>,
  \<^verbatim>\<open>path\<close>, \<^verbatim>\<open>mime_type\<close> and \<^verbatim>\<open>size\<close> that the ingestion job builds for every
  file.
\<close>

record manifest_entry =
  m_id :: string
  m_name :: string
  m_path :: string
  m_mime_type :: string
  m_size :: py_value

text \<open>
  \<^verbatim>\<open>
  def store_file_manifest(user_id, folder_id, files):
      collection = get_collection(user_id, folder_id)
      manifest_json = json.dumps(files)
      manifest_summary = f"This folder contains {len(files)} files: " + ", ".join(f["name"] for f in files[:50])
      if len(files) > 50:
          manifest_summary += f" and {len(files) - 50} more files."
      collection.upsert(
          documents=[manifest_summary],
          metadatas=[{"type": "manifest", "manifest_json": manifest_json}],
          ids=[f"{MANIFEST_PREFIX}{folder_id}"],
      )
  \<close>
  \<^verbatim>\<open>json.dumps\<close> is the parameter \<open>json_dumps\<close>.
\<close>

definition manifest_summary :: "manifest_entry list \<Rightarrow> string" where
  "manifest_summary files =
     (let summary = ''This folder contains '' @ show_nat (length files) @ '' files: ''
                    @ py_join '', '' (map m_name (take 50 files))
      in if 50 < length files
         then summary @ '' and '' @ show_nat (length files - 50) @ '' more files.''
         else summary)"

definition store_file_manifest ::
  "(manifest_entry list \<Rightarrow> string) \<Rightarrow> chroma_client \<Rightarrow> string \<Rightarrow> string \<Rightarrow> manifest_entry list \<Rightarrow> chroma_client"
where
  "store_file_manifest json_dumps client user_id folder_id files =
     (let (collection, client1) = get_collection client user_id folder_id;
          manifest_json = json_dumps files
      in upsert client1 collection (MANIFEST_PREFIX @ folder_id) (manifest_summary files)
           [(''type'', PyStr ''manifest''), (''manifest_json'', PyStr manifest_json)])"

text \<open>
  \<^verbatim>\<open>
  def get_file_manifest(user_id, folder_id):
      collection = get_collection(user_id, folder_id)
      try:
          results = collection.get(ids=[f"{MANIFEST_PREFIX}{folder_id}"], include=["metadatas"])
          if results["metadatas"] and results["metadatas"][0]:
              manifest_json = results["metadatas"][0].get("manifest_json", "[]")
              return json.loads(manifest_json)
      except Exception:
          pass
      return []
  \<close>
  \<^verbatim>\<open>json.loads\<close> is the parameter \<open>json_loads\<close>, which either raises or returns the
  list read; on a value that is not a string \<^verbatim>\<open>json.loads\<close> raises
  \<^verbatim>\<open>TypeError\<close>. Every exception ends in the final \<^verbatim>\<open>return []\<close>. The result is
  the list together with the client (the collection may have been created).
\<close>

definition get_file_manifest ::
  "(string \<Rightarrow> py_error + manifest_entry list) \<Rightarrow> chroma_client \<Rightarrow> string \<Rightarrow> string
     \<Rightarrow> manifest_entry list \<times> chroma_client"
where
  "get_file_manifest json_loads client user_id folder_id =
     (let (collection, client1) = get_collection client user_id folder_id;
          metadatas = get_metadatas client1 collection (MANIFEST_PREFIX @ folder_id)
      in case metadatas of
           [] \<Rightarrow> ([], client1)
         | meta # rest \<Rightarrow>
             if meta = [] then ([], client1)
             else (case dict_get meta ''manifest_json'' (PyStr ''[]'') of
                     PyStr manifest_json \<Rightarrow>
                       (case json_loads manifest_json of
                          Inr files \<Rightarrow> (files, client1)
                        | Inl e \<Rightarrow> ([], client1))
                   | other \<Rightarrow> ([], client1)))"

subsection \<open>A JSON codec for manifests\<close>

text \<open>
  The program serialises the manifest with the standard library's \<^verbatim>\<open>json\<close> module,
  which the store functions above take as parameters. For concrete instances the
  following codec is used: \<open>json_dumps\<close> writes the text that \<^verbatim>\<open>json.dumps\<close> produces
  for a list of manifest entries whose strings are printable ASCII (separators
  \<^verbatim>\<open>", "\<close> and \<^verbatim>\<open>": "\<close>, quotes and backslashes escaped), and \<open>json_loads\<close> reads
  that format back, answering \<^verbatim>\<open>JSONDecodeError\<close> on any other text.
\<close>

definition dq :: char where "dq = CHR 0x22"
definition bsl :: char where "bsl = CHR 0x5C"

definition json_escape :: "char \<Rightarrow> string" where
  "json_escape c = (if c = dq \<or> c = bsl then [bsl, c] else [c])"

definition json_str :: "string \<Rightarrow> string" where
  "json_str s = dq # concat (map json_escape s) @ [dq]"

definition json_val :: "py_value \<Rightarrow> string" where
  "json_val v =
     (case v of PyNone \<Rightarrow> ''null'' | PyInt i \<Rightarrow> show_int i | PyStr s \<Rightarrow> json_str s
      | PyOther \<Rightarrow> ''[]'')"

definition json_key :: "string \<Rightarrow> string" where
  "json_key k = json_str k @ '': ''"

definition json_entry :: "manifest_entry \<Rightarrow> string" where
  "json_entry e =
     ''{'' @ json_key ''id'' @ json_str (m_id e)
     @ '', '' @ json_key ''name'' @ json_str (m_name e)
     @ '', '' @ json_key ''path'' @ json_str (m_path e)
     @ '', '' @ json_key ''mime_type'' @ json_str (m_mime_type e)
     @ '', '' @ json_key ''size'' @ json_val (m_size e) @ ''}''"

definition json_dumps :: "manifest_entry list \<Rightarrow> string" where
  "json_dumps es = ''['' @ py_join '', '' (map json_entry es) @ '']''"

definition strip_prefix :: "string \<Rightarrow> string \<Rightarrow> string option" where
  "strip_prefix p s = (if take (length p) s = p then Some (drop (length p) s) else None)"

fun read_str_body :: "string \<Rightarrow> string \<Rightarrow> (string \<times> string) option" where
  "read_str_body [] acc = None"
| "read_str_body [c] acc = (if c = dq then Some (rev acc, []) else None)"
| "read_str_body (c # d # ds) acc =
     (if c = dq then Some (rev acc, d # ds)
      else if c = bsl then (if d = dq \<or> d = bsl then read_str_body ds (d # acc) else None)
      else read_str_body (d # ds) (c # acc))"

definition read_string :: "string \<Rightarrow> (string \<times> string) option" where
  "read_string s = (case s of [] \<Rightarrow> None | c # cs \<Rightarrow> if c = dq then read_str_body cs [] else None)"

definition read_value :: "string \<Rightarrow> (py_value \<times> string) option" where
  "read_value s =
     (case strip_prefix ''null'' s of
        Some r \<Rightarrow> Some (PyNone, r)
      | None \<Rightarrow>
          (case read_string s of
             Some (v, r) \<Rightarrow> Some (PyStr v, r)
           | None \<Rightarrow>
               (let num = takeWhile (\<lambda>c. is_digit c \<or> c = CHR ''-'') s
                in map_option (\<lambda>i. (PyInt i, drop (length num) s)) (py_int_of_str num))))"

definition read_field :: "string \<Rightarrow> string \<Rightarrow> (string \<times> string) option" where
  "read_field k s = Option.bind (strip_prefix (json_key k) s) read_string"

definition read_entry :: "string \<Rightarrow> (manifest_entry \<times> string) option" where
  "read_entry s =
     Option.bind (strip_prefix ''{'' s) (\<lambda>s.
     Option.bind (read_field ''id'' s) (\<lambda>(i, s).
     Option.bind (strip_prefix '', '' s) (\<lambda>s.
     Option.bind (read_field ''name'' s) (\<lambda>(n, s).
     Option.bind (strip_prefix '', '' s) (\<lambda>s.
     Option.bind (read_field ''path'' s) (\<lambda>(p, s).
     Option.bind (strip_prefix '', '' s) (\<lambda>s.
     Option.bind (read_field ''mime_type'' s) (\<lambda>(t, s).
     Option.bind (strip_prefix '', '' s) (\<lambda>s.
     Option.bind (strip_prefix (json_key ''size'') s) (\<lambda>s.
     Option.bind (read_value s) (\<lambda>(v, s).
     Option.bind (strip_prefix ''}'' s) (\<lambda>s.
       Some (\<lparr>m_id = i, m_name = n, m_path = p, m_mime_type = t, m_size = v\<rparr>, s)))))))))))))"

fun read_entries :: "nat \<Rightarrow> string \<Rightarrow> manifest_entry list option" where
  "read_entries 0 s = None"
| "read_entries (Suc fuel) s =
     (case read_entry s of
        None \<Rightarrow> None
      | Some (e, rest) \<Rightarrow>
          if rest = '']'' then Some [e]
          else (case strip_prefix '', '' rest of
                  None \<Rightarrow> None
                | Some r \<Rightarrow> map_option ((#) e) (read_entries fuel r)))"

definition json_loads :: "string \<Rightarrow> py_error + manifest_entry list" where
  "json_loads s =
     (if s = ''[]'' then Inr []
      else (case strip_prefix ''['' s of
              None \<Rightarrow> Inl JSONDecodeError
            | Some r \<Rightarrow>
                (case read_entries (length s) r of
                   None \<Rightarrow> Inl JSONDecodeError
                 | Some es \<Rightarrow> Inr es)))"

text \<open>Entries for concrete instances.\<close>

definition entry_of_name :: "string \<Rightarrow> manifest_entry" where
  "entry_of_name n =
     \<lparr>m_id = ''id-'' @ n, m_name = n, m_path = n, m_mime_type = ''text/plain'', m_size = PyInt 12\<rparr>"

subsection \<open>Search (\<^verbatim>\<open>vector_store.search_documents\<close>)\<close>

text \<open>
  The metadata filter passed to Chroma, and the answer of \<^verbatim>\<open>collection.query\<close> for
  one query text: under each of the keys \<^verbatim>\<open>documents\<close>, \<^verbatim>\<open>metadatas\<close> and
  \<^verbatim>\<open>distances\<close> either \<^verbatim>\<open>None\<close> or a list with one inner list per query text.
  The query itself is a parameter: it is given the query text, the result count and the
  filter (\<^const>\<open>None\<close> when the call passes no \<^verbatim>\<open>where\<close>), and raises or answers.
\<close>

datatype where_clause =
  Ne string py_value | Eq string py_value | And "where_clause list"

record query_result =
  qr_documents :: "string list list option"
  qr_metadatas :: "py_dict list list option"
  qr_distances :: "real list list option"

type_synonym query_fn = "string \<Rightarrow> int \<Rightarrow> where_clause option \<Rightarrow> py_error + query_result"

record search_hit =
  h_content :: string
  h_metadata :: py_dict
  h_distance :: real

text \<open>Truthiness of an optional list: neither \<^verbatim>\<open>None\<close> nor empty.\<close>

definition truthy_list :: "'a list option \<Rightarrow> bool" where
  "truthy_list v = (case v of None \<Rightarrow> False | Some xs \<Rightarrow> xs \<noteq> [])"

text \<open>
  \<^verbatim>\<open>results[key][0][i] if results[key] else default\<close>: both subscripts may raise
  \<^verbatim>\<open>IndexError\<close>.
\<close>

definition first_row_at :: "'a list list option \<Rightarrow> nat \<Rightarrow> 'a \<Rightarrow> py_error + 'a" where
  "first_row_at v i dflt =
     (if truthy_list v
      then (case py_nth (the v) 0 of Inl e \<Rightarrow> Inl e | Inr row \<Rightarrow> py_nth row i)
      else Inr dflt)"

text \<open>
  The loop over \<^verbatim>\<open>enumerate(results["documents"][0])\<close>, with the hits collected so
  far:
  \<^verbatim>\<open>
          for i, doc in enumerate(results["documents"][0]):
              meta = results["metadatas"][0][i] if results["metadatas"] else {}
              if meta.get("type") == "manifest":
                  continue
              documents.append({
                  "content": doc,
                  "metadata": meta,
                  "distance": results["distances"][0][i] if results["distances"] else 0,
              })
  \<close>
\<close>

fun collect_hits ::
  "query_result \<Rightarrow> (nat \<times> string) list \<Rightarrow> search_hit list \<Rightarrow> py_error + search_hit list"
where
  "collect_hits results [] documents = Inr documents"
| "collect_hits results ((i, doc) # rest) documents =
     (case first_row_at (qr_metadatas results) i [] of
        Inl e \<Rightarrow> Inl e
      | Inr meta \<Rightarrow>
          if map_of meta ''type'' = Some (PyStr ''manifest'')
          then collect_hits results rest documents
          else (case first_row_at (qr_distances results) i 0 of
                  Inl e \<Rightarrow> Inl e
                | Inr d \<Rightarrow>
                    collect_hits results rest
                      (documents @ [\<lparr>h_content = doc, h_metadata = meta, h_distance = d\<rparr>])))"

text \<open>
  \<^verbatim>\<open>
  def search_documents(user_id, folder_id, query, n_results=10, file_name_filter=None):
      collection = get_collection(user_id, folder_id)
      where_filter = {"type": {"$ne": "manifest"}}
      if file_name_filter:
          where_filter = {"$and": [
              {"type": {"$ne": "manifest"}},
              {"file_name": {"$eq": file_name_filter}},
          ]}
      try:
          results = collection.query(query_texts=[query], n_results=n_results,
              where=where_filter, include=["documents", "metadatas", "distances"])
      except Exception:
          results = collection.query(query_texts=[query], n_results=n_results,
              include=["documents", "metadatas", "distances"])
      documents = []
      if results["documents"] and results["documents"][0]:
          for i, doc in enumerate(results["documents"][0]):
              ...
      return documents
  \<close>
  The parameter \<open>collection_query\<close> is the \<^verbatim>\<open>query\<close> method of the collection of
  the given user and folder. An exception of the second query is not caught.
\<close>

definition where_filter_of :: "string option \<Rightarrow> where_clause" where
  "where_filter_of file_name_filter =
     (case file_name_filter of
        None \<Rightarrow> Ne ''type'' (PyStr ''manifest'')
      | Some n \<Rightarrow>
          if n \<noteq> []
          then And [Ne ''type'' (PyStr ''manifest''), Eq ''file_name'' (PyStr n)]
          else Ne ''type'' (PyStr ''manifest''))"

definition search_documents ::
  "query_fn \<Rightarrow> string \<Rightarrow> int \<Rightarrow> string option \<Rightarrow> py_error + search_hit list" where
  "search_documents collection_query query n_results file_name_filter =
     (let where_filter = where_filter_of file_name_filter;
          results = (case collection_query query n_results (Some where_filter) of
                       Inr r \<Rightarrow> Inr r
                     | Inl e \<Rightarrow> collection_query query n_results None)
      in case results of
           Inl e \<Rightarrow> Inl e
         | Inr r \<Rightarrow>
             if truthy_list (qr_documents r) \<and> hd (the (qr_documents r)) \<noteq> []
             then collect_hits r (enumerate 0 (hd (the (qr_documents r)))) []
             else Inr [])"

text \<open>
  A query for concrete instances: it rejects every filter and, without one, answers
  with the manifest record followed by one content chunk.
\<close>

definition unfiltered_only_query :: query_fn where
  "unfiltered_only_query query n_results flt =
     (case flt of
        Some w \<Rightarrow> Inl (Exception ''filter not supported'')
      | None \<Rightarrow>
          Inr \<lparr>qr_documents = Some [[''This folder contains 1 files: a.txt'', ''hello'']],
               qr_metadatas = Some [[[(''type'', PyStr ''manifest''), (''manifest_json'', PyStr ''[]'')],
                                     [(''file_name'', PyStr ''a.txt''), (''chunk_index'', PyInt 0)]]],
               qr_distances = Some [[1 / 4, 1 / 2]]\<rparr>)"

subsection \<open>The downloader (\<^verbatim>\<open>GoogleDriveService.download_files_parallel\<close>)\<close>

text \<open>File contents are byte strings, modelled as lists of characters.\<close>

type_synonym bytes = string

text \<open>
  What \<^verbatim>\<open>await asyncio.wait_for(self.download_file(id, mime), timeout=60)\<close> does for
  one file: it returns the content, runs into the timeout, or raises another exception
  (after the retries of \<^verbatim>\<open>_sync_download\<close>).
\<close>

datatype download_outcome = Downloaded bytes | TimedOut | Raised py_error

text \<open>
  \<^verbatim>\<open>
          async def download_with_semaphore(file):
              async with semaphore:
                  try:
                      content = await asyncio.wait_for(
                          self.download_file(file["id"], file["mimeType"]), timeout=60)
                      result = (file, content)
                  except asyncio.TimeoutError:
                      result = (file, None)
                  except Exception as e:
                      result = (file, None)
                  ...
                  return result

          tasks = [download_with_semaphore(f) for f in files]
          return await asyncio.gather(*tasks)
  \<close>
  \<^verbatim>\<open>asyncio.gather\<close> returns the results of the tasks in the order of the tasks. The
  outcome of the download of the \<open>i\<close>-th file is the parameter \<open>attempt i file\<close>; the
  semaphore and the progress counter influence the log only.
\<close>

definition download_with_semaphore ::
  "download_outcome \<Rightarrow> 'a drive_file_scheme \<Rightarrow> 'a drive_file_scheme \<times> bytes option" where
  "download_with_semaphore outcome file =
     (case outcome of
        Downloaded content \<Rightarrow> (file, Some content)
      | TimedOut \<Rightarrow> (file, None)
      | Raised e \<Rightarrow> (file, None))"

definition download_files_parallel ::
  "(nat \<Rightarrow> 'a drive_file_scheme \<Rightarrow> download_outcome) \<Rightarrow> 'a drive_file_scheme list
     \<Rightarrow> ('a drive_file_scheme \<times> bytes option) list" where
  "download_files_parallel attempt files =
     map (\<lambda>(i, f). download_with_semaphore (attempt i f) f) (enumerate 0 files)"

subsection \<open>The uploader (\<^verbatim>\<open>gemini_service.upload_files_to_gemini\<close>)\<close>

definition DOCX_MIME :: string where
  "DOCX_MIME = ''application/vnd.openxmlformats-officedocument.wordprocessingml.document''"

definition XLSX_MIME :: string where
  "XLSX_MIME = ''application/vnd.openxmlformats-officedocument.spreadsheetml.sheet''"

definition PPTX_MIME :: string where
  "PPTX_MIME = ''application/vnd.openxmlformats-officedocument.presentationml.presentation''"

definition OFFICE_MIMES_NEED_CONVERSION :: "string list" where
  "OFFICE_MIMES_NEED_CONVERSION = [DOCX_MIME, XLSX_MIME, PPTX_MIME]"

text \<open>
  \<^verbatim>\<open>filename.rsplit(".", 1)[0] if "." in filename else filename\<close>: the name without
  its last extension.
\<close>

definition base_name :: "string \<Rightarrow> string" where
  "base_name filename =
     (if CHR ''.'' \<in> set filename
      then rev (tl (dropWhile (\<lambda>c. c \<noteq> CHR ''.'') (rev filename)))
      else filename)"

text \<open>
  \<^verbatim>\<open>
  def convert_office_to_text(content, mime_type, filename):
      try:
          if mime_type == DOCX:   text = _extract_text_from_docx(content)
          elif mime_type == XLSX: text = _extract_text_from_xlsx(content)
          elif mime_type == PPTX: text = _extract_text_from_pptx(content)
          else:
              return content, mime_type, filename
          base_name = filename.rsplit(".", 1)[0] if "." in filename else filename
          return text.encode("utf-8"), "text/plain", f"{base_name}.txt"
      except Exception as e:
          return content, mime_type, filename
  \<close>
  The three extractors read the file with the document libraries; they are the
  parameter \<open>extract_office\<close>, which is given the MIME type and the content and returns
  the text or raises.
\<close>

definition convert_office_to_text ::
  "(string \<Rightarrow> bytes \<Rightarrow> py_error + string) \<Rightarrow> bytes \<Rightarrow> string \<Rightarrow> string
     \<Rightarrow> bytes \<times> string \<times> string" where
  "convert_office_to_text extract_office content mime_type filename =
     (if mime_type = DOCX_MIME \<or> mime_type = XLSX_MIME \<or> mime_type = PPTX_MIME
      then (case extract_office mime_type content of
              Inr text \<Rightarrow> (text, ''text/plain'', base_name filename @ ''.txt'')
            | Inl e \<Rightarrow> (content, mime_type, filename))
      else (content, mime_type, filename))"

text \<open>The result dictionary of one upload; \<^verbatim>\<open>gemini_uri\<close> is \<^verbatim>\<open>None\<close> on failure.\<close>

record gemini_file =
  g_id :: string
  g_name :: string
  g_path :: string
  g_mime_type :: string
  gemini_uri :: "string option"

text \<open>
  \<^verbatim>\<open>
      async def upload_with_semaphore(file_meta, content):
          mime_type = file_meta.get("mimeType", "application/octet-stream")
          filename = file_meta["name"]
          if mime_type == "application/vnd.google-apps.document":
              mime_type = DOCX
          elif mime_type == "application/vnd.google-apps.spreadsheet":
              mime_type = XLSX
          elif mime_type == "application/vnd.google-apps.presentation":
              mime_type = PPTX
          if mime_type in OFFICE_MIMES_NEED_CONVERSION:
              content, mime_type, filename = convert_office_to_text(content, mime_type, filename)
          async with semaphore:
              try:
                  uri = await upload_file_to_gemini(content, filename, mime_type)
                  return {"id": file_meta["id"], "name": file_meta["name"],
                          "path": file_meta.get("path", file_meta["name"]),
                          "mime_type": file_meta.get("mimeType", ""), "gemini_uri": uri}
              except Exception as e:
                  return {"id": ..., "name": ..., "path": ..., "mime_type": ..., "gemini_uri": None}

      tasks = []
      for file_meta, content in files_with_content:
          if content is None:
              continue
          tasks.append(upload_with_semaphore(file_meta, content))
      results = await asyncio.gather(*tasks)
      return results
  \<close>
  \<open>upload_file\<close> is \<^verbatim>\<open>upload_file_to_gemini\<close> (the Gemini File API with its
  retries): it returns the URI of the uploaded file or raises.
\<close>

definition export_mime :: "string \<Rightarrow> string" where
  "export_mime mime_type =
     (if mime_type = ''application/vnd.google-apps.document'' then DOCX_MIME
      else if mime_type = ''application/vnd.google-apps.spreadsheet'' then XLSX_MIME
      else if mime_type = ''application/vnd.google-apps.presentation'' then PPTX_MIME
      else mime_type)"

definition upload_result :: "'a drive_file_scheme \<Rightarrow> string option \<Rightarrow> gemini_file" where
  "upload_result file_meta uri =
     \<lparr>g_id = f_id file_meta, g_name = f_name file_meta,
      g_path = (case f_path file_meta of Some p \<Rightarrow> p | None \<Rightarrow> f_name file_meta),
      g_mime_type = f_mimeType file_meta, gemini_uri = uri\<rparr>"

definition upload_with_semaphore ::
  "(string \<Rightarrow> bytes \<Rightarrow> py_error + string) \<Rightarrow> (bytes \<Rightarrow> string \<Rightarrow> string \<Rightarrow> py_error + string)
     \<Rightarrow> 'a drive_file_scheme \<Rightarrow> bytes \<Rightarrow> gemini_file" where
  "upload_with_semaphore extract_office upload_file file_meta content =
     (let mime_type = export_mime (f_mimeType file_meta);
          filename = f_name file_meta;
          (content, mime_type, filename) =
             (if mime_type \<in> set OFFICE_MIMES_NEED_CONVERSION
              then convert_office_to_text extract_office content mime_type filename
              else (content, mime_type, filename))
      in case upload_file content filename mime_type of
           Inr uri \<Rightarrow> upload_result file_meta (Some uri)
         | Inl e \<Rightarrow> upload_result file_meta None)"

fun upload_tasks ::
  "(string \<Rightarrow> bytes \<Rightarrow> py_error + string) \<Rightarrow> (bytes \<Rightarrow> string \<Rightarrow> string \<Rightarrow> py_error + string)
     \<Rightarrow> ('a drive_file_scheme \<times> bytes option) list \<Rightarrow> gemini_file list" where
  "upload_tasks extract_office upload_file [] = []"
| "upload_tasks extract_office upload_file ((file_meta, content) # rest) =
     (case content of
        None \<Rightarrow> upload_tasks extract_office upload_file rest
      | Some c \<Rightarrow> upload_with_semaphore extract_office upload_file file_meta c
                  # upload_tasks extract_office upload_file rest)"

definition upload_files_to_gemini ::
  "(string \<Rightarrow> bytes \<Rightarrow> py_error + string) \<Rightarrow> (bytes \<Rightarrow> string \<Rightarrow> string \<Rightarrow> py_error + string)
     \<Rightarrow> ('a drive_file_scheme \<times> bytes option) list \<Rightarrow> gemini_file list" where
  "upload_files_to_gemini extract_office upload_file files_with_content =
     upload_tasks extract_office upload_file files_with_content"

subsection \<open>RAG indexing of the downloaded files (\<^verbatim>\<open>ingestion.process_files_parallel\<close>)\<close>

text \<open>
  Text extraction reads the documents with the PDF, word-processing, spreadsheet and
  presentation libraries. \<^verbatim>\<open>extract_text\<close> and \<^verbatim>\<open>extract_pdf_pages\<close> are therefore
  parameters: given the content (and the MIME type) they return the text, or the
  numbered non-empty pages, or raise. A produced chunk is a triple of document text,
  metadata dictionary and id; the program keeps the three components in three lists of
  equal length.
\<close>

type_synonym chunk_record = "string \<times> py_dict \<times> string"

definition chunk_text_default :: "string \<Rightarrow> string list" where
  "chunk_text_default text =
     (case chunk_text text CHUNK_SIZE CHUNK_OVERLAP of Some chunks \<Rightarrow> chunks | None \<Rightarrow> [])"

definition path_or_name :: "'a drive_file_scheme \<Rightarrow> string" where
  "path_or_name file = (case f_path file of Some p \<Rightarrow> p | None \<Rightarrow> f_name file)"

text \<open>
  \<^verbatim>\<open>
  def process_pdf_content(file, content):
      pages = extract_pdf_pages(content)
      if not pages:
          return [], [], []
      ...
      chunk_idx = 0
      for page_num, page_text in pages:
          page_chunks = chunk_text(page_text)
          for i, chunk in enumerate(page_chunks):
              documents.append(chunk)
              metadatas.append({"file_id": file["id"], "file_name": file["name"],
                  "file_path": file.get("path", file["name"]), "mime_type": "application/pdf",
                  "chunk_index": chunk_idx, "page_number": page_num,
                  "total_pages": len(pages), "chunk_in_page": i})
              ids.append(f"{file['id']}_page_{page_num}_chunk_{i}")
              chunk_idx += 1
      return documents, metadatas, ids
  \<close>
\<close>

definition pdf_chunk ::
  "'a drive_file_scheme \<Rightarrow> nat \<Rightarrow> nat \<Rightarrow> nat \<Rightarrow> nat \<times> string \<Rightarrow> chunk_record" where
  "pdf_chunk file total_pages page_num chunk_idx ic =
     (snd ic,
      [(''file_id'', PyStr (f_id file)), (''file_name'', PyStr (f_name file)),
       (''file_path'', PyStr (path_or_name file)), (''mime_type'', PyStr ''application/pdf''),
       (''chunk_index'', PyInt (int (chunk_idx + fst ic))), (''page_number'', PyInt (int page_num)),
       (''total_pages'', PyInt (int total_pages)), (''chunk_in_page'', PyInt (int (fst ic)))],
      f_id file @ ''_page_'' @ show_nat page_num @ ''_chunk_'' @ show_nat (fst ic))"

fun pdf_pages_loop ::
  "'a drive_file_scheme \<Rightarrow> nat \<Rightarrow> (nat \<times> string) list \<Rightarrow> nat \<Rightarrow> chunk_record list
     \<Rightarrow> chunk_record list" where
  "pdf_pages_loop file total_pages [] chunk_idx acc = acc"
| "pdf_pages_loop file total_pages ((page_num, page_text) # rest) chunk_idx acc =
     (let page_chunks = chunk_text_default page_text
      in pdf_pages_loop file total_pages rest (chunk_idx + length page_chunks)
           (acc @ map (pdf_chunk file total_pages page_num chunk_idx) (enumerate 0 page_chunks)))"

definition process_pdf_content ::
  "(bytes \<Rightarrow> py_error + (nat \<times> string) list) \<Rightarrow> 'a drive_file_scheme \<Rightarrow> bytes
     \<Rightarrow> py_error + chunk_record list" where
  "process_pdf_content extract_pdf_pages file content =
     (case extract_pdf_pages content of
        Inl e \<Rightarrow> Inl e
      | Inr pages \<Rightarrow> Inr (pdf_pages_loop file (length pages) pages 0 []))"

text \<open>
  \<^verbatim>\<open>
  def process_file_content(file, content):
      mime_type = file["mimeType"]
      if mime_type == "application/pdf":
          return process_pdf_content(file, content)
      text = extract_text(content, mime_type)
      if not text.strip():
          return [], [], []
      chunks = chunk_text(text)
      ...
      for i, chunk in enumerate(chunks):
          documents.append(chunk)
          metadatas.append({"file_id": file["id"], "file_name": file["name"],
              "file_path": file.get("path", file["name"]), "mime_type": mime_type,
              "chunk_index": i, "total_chunks": len(chunks)})
          ids.append(f"{file['id']}_chunk_{i}")
      return documents, metadatas, ids
  \<close>
\<close>

definition text_chunk :: "'a drive_file_scheme \<Rightarrow> nat \<Rightarrow> nat \<times> string \<Rightarrow> chunk_record" where
  "text_chunk file total_chunks ic =
     (snd ic,
      [(''file_id'', PyStr (f_id file)), (''file_name'', PyStr (f_name file)),
       (''file_path'', PyStr (path_or_name file)), (''mime_type'', PyStr (f_mimeType file)),
       (''chunk_index'', PyInt (int (fst ic))), (''total_chunks'', PyInt (int total_chunks))],
      f_id file @ ''_chunk_'' @ show_nat (fst ic))"

record extractors =
  extract_text :: "bytes \<Rightarrow> string \<Rightarrow> py_error + string"
  extract_pdf_pages :: "bytes \<Rightarrow> py_error + (nat \<times> string) list"
  extract_office :: "string \<Rightarrow> bytes \<Rightarrow> py_error + string"

definition process_file_content ::
  "extractors \<Rightarrow> 'a drive_file_scheme \<Rightarrow> bytes \<Rightarrow> py_error + chunk_record list" where
  "process_file_content ex file content =
     (let mime_type = f_mimeType file
      in if mime_type = ''application/pdf''
         then process_pdf_content (extract_pdf_pages ex) file content
         else (case extract_text ex content mime_type of
                 Inl e \<Rightarrow> Inl e
               | Inr text \<Rightarrow>
                   if py_strip text = [] then Inr []
                   else (let chunks = chunk_text_default text
                         in Inr (map (text_chunk file (length chunks)) (enumerate 0 chunks)))))"

text \<open>
  \<^verbatim>\<open>
  async def process_files_parallel(downloaded):
      def process_batch(items):
          results = []
          for file, content in items:
              if content is None:
                  results.append(([], [], [], False))
                  continue
              docs, metas, ids = process_file_content(file, content)
              results.append((docs, metas, ids, bool(docs)))
          return results
      batch_size = max(1, len(downloaded) // 4)
      batches = [downloaded[i:i + batch_size] for i in range(0, len(downloaded), batch_size)]
      ... batch_results = await asyncio.gather(*futures)
      for batch_result in batch_results:
          for docs, metas, ids, success in batch_result:
              if success:
                  all_documents.extend(docs); all_metadatas.extend(metas); all_ids.extend(ids)
                  indexed_count += 1
      return all_documents, all_metadatas, all_ids, indexed_count
  \<close>
  The batches are consecutive slices of the input and their results are read in order,
  so the items are processed here one after the other; when several items raise, the
  exception of the first one in list order stands for the one that \<^verbatim>\<open>gather\<close>
  reports.
\<close>

fun process_items ::
  "extractors \<Rightarrow> ('a drive_file_scheme \<times> bytes option) list \<Rightarrow> chunk_record list \<Rightarrow> int
     \<Rightarrow> py_error + chunk_record list \<times> int" where
  "process_items ex [] all_chunks indexed_count = Inr (all_chunks, indexed_count)"
| "process_items ex ((file, content) # rest) all_chunks indexed_count =
     (case content of
        None \<Rightarrow> process_items ex rest all_chunks indexed_count
      | Some c \<Rightarrow>
          (case process_file_content ex file c of
             Inl e \<Rightarrow> Inl e
           | Inr docs \<Rightarrow>
               if docs \<noteq> []
               then process_items ex rest (all_chunks @ docs) (indexed_count + 1)
               else process_items ex rest all_chunks indexed_count))"

definition process_files_parallel ::
  "extractors \<Rightarrow> ('a drive_file_scheme \<times> bytes option) list \<Rightarrow> py_error + chunk_record list \<times> int"
where
  "process_files_parallel ex downloaded = process_items ex downloaded [] 0"

subsection \<open>Folder ingestion (\<^verbatim>\<open>ingestion.ingest_folder\<close>)\<close>

datatype FolderStatus = PENDING | INDEXING | READY | FAILED

datatype IndexMode = IndexMode_gemini_files | IndexMode_chroma

text \<open>The columns of the \<^verbatim>\<open>folders\<close> table that the job reads or writes.\<close>

record folder =
  fo_drive_folder_id :: string
  fo_status :: FolderStatus
  fo_index_mode :: "IndexMode option"
  fo_file_count :: int
  fo_indexed_at :: "nat option"
  fo_gemini_files :: "gemini_file list option"

text \<open>
  The state that the job works on: the row of the folder with the given id, if there is
  one, and the vector store.
\<close>

record world =
  w_folder :: "folder option"
  w_chroma :: chroma_client

text \<open>
  What the job meets outside the program: the answer of the recursive Drive listing, the
  outcome of each download, the extraction libraries, the Gemini upload, the
  serialiser, the clock, and whether the Chroma service can be reached
  (\<open>chroma_error = Some e\<close>: every call to the vector store raises \<open>e\<close>). Commits to the
  database are taken to succeed.
\<close>

record ingest_env =
  env_list_files :: "py_error + drive_file list"
  env_download :: "nat \<Rightarrow> drive_file \<Rightarrow> download_outcome"
  env_extractors :: extractors
  env_upload_file :: "bytes \<Rightarrow> string \<Rightarrow> string \<Rightarrow> py_error + string"
  env_json_dumps :: "manifest_entry list \<Rightarrow> string"
  env_chroma_error :: "py_error option"
  env_utcnow :: nat

text \<open>
  \<^verbatim>\<open>vector_store.add_documents\<close> upserts the chunks in batches of 100:
  \<^verbatim>\<open>
      for i in range(0, len(documents), batch_size):
          collection.upsert(documents=documents[i:i + batch_size], ...)
  \<close>
\<close>

definition upsert_many :: "chroma_client \<Rightarrow> string \<Rightarrow> chunk_record list \<Rightarrow> chroma_client" where
  "upsert_many client collection_name batch =
     foldl (\<lambda>cl (doc, meta, rid). upsert cl collection_name rid doc meta) client batch"

definition add_documents :: "chroma_client \<Rightarrow> string \<Rightarrow> string \<Rightarrow> chunk_record list \<Rightarrow> chroma_client" where
  "add_documents client user_id folder_id chunks =
     (let (collection, client1) = get_collection client user_id folder_id;
          batch_size = 100
      in foldl (\<lambda>cl i. upsert_many cl collection (take batch_size (drop i chunks))) client1
           (map (\<lambda>k. k * batch_size) [0..<(length chunks + batch_size - 1) div batch_size]))"

text \<open>The manifest entries that the job builds from the listing and from the uploads.\<close>

definition listed_entry :: "drive_file \<Rightarrow> manifest_entry" where
  "listed_entry f =
     \<lparr>m_id = f_id f, m_name = f_name f, m_path = path_or_name f, m_mime_type = f_mimeType f,
      m_size = (case f_size f of Some v \<Rightarrow> v | None \<Rightarrow> PyInt 0)\<rparr>"

definition uploaded_entry :: "gemini_file \<Rightarrow> manifest_entry" where
  "uploaded_entry f =
     \<lparr>m_id = g_id f, m_name = g_name f, m_path = g_name f, m_mime_type = g_mime_type f,
      m_size = PyInt 0\<rparr>"

text \<open>
  The acceptance test of the fast path:
  \<^verbatim>\<open>
      successful_uploads = [f for f in gemini_files if f.get("gemini_uri")]
      total_attempted = len(gemini_files)
      success_rate = len(successful_uploads) / total_attempted if total_attempted > 0 else 0
      if success_rate >= 0.5 and successful_uploads:
  \<close>
  A URI is truthy when it is neither \<^verbatim>\<open>None\<close> nor the empty string. The quotient is a
  floating-point number in the program and a real number here; for the list lengths
  that can occur (the fast path is tried for at most 50 files) the comparison with 0.5
  has the same result.
\<close>

definition uri_truthy :: "gemini_file \<Rightarrow> bool" where
  "uri_truthy f = (case gemini_uri f of None \<Rightarrow> False | Some u \<Rightarrow> u \<noteq> [])"

definition successful_uploads :: "gemini_file list \<Rightarrow> gemini_file list" where
  "successful_uploads gemini_files = filter uri_truthy gemini_files"

definition success_rate :: "gemini_file list \<Rightarrow> real" where
  "success_rate gemini_files =
     (let total_attempted = length gemini_files
      in if 0 < total_attempted
         then real (length (successful_uploads gemini_files)) / real total_attempted
         else 0)"

definition fast_path_accepted :: "gemini_file list \<Rightarrow> bool" where
  "fast_path_accepted gemini_files =
     (1 / 2 \<le> success_rate gemini_files \<and> successful_uploads gemini_files \<noteq> [])"

text \<open>
  The calls to the vector store as the job makes them: they raise when the service
  cannot be reached.
\<close>

definition vs_store_file_manifest ::
  "ingest_env \<Rightarrow> chroma_client \<Rightarrow> string \<Rightarrow> string \<Rightarrow> manifest_entry list
     \<Rightarrow> py_error + chroma_client" where
  "vs_store_file_manifest env client user_id folder_id files =
     (case env_chroma_error env of
        Some e \<Rightarrow> Inl e
      | None \<Rightarrow> Inr (store_file_manifest (env_json_dumps env) client user_id folder_id files))"

definition vs_add_documents ::
  "ingest_env \<Rightarrow> chroma_client \<Rightarrow> string \<Rightarrow> string \<Rightarrow> chunk_record list
     \<Rightarrow> py_error + chroma_client" where
  "vs_add_documents env client user_id folder_id chunks =
     (case env_chroma_error env of
        Some e \<Rightarrow> Inl e
      | None \<Rightarrow> Inr (add_documents client user_id folder_id chunks))"

text \<open>
  The fast-path attempt, the inner \<^verbatim>\<open>try\<close> of the job:
  \<^verbatim>\<open>
          if use_fast_path:
              try:
                  gemini_files = await upload_files_to_gemini(downloaded)
                  successful_uploads = ...; success_rate = ...
                  if success_rate >= 0.5 and successful_uploads:
                      fast_manifest = [ {...} for f in successful_uploads ]
                      vector_store.store_file_manifest(user_id, folder_id, fast_manifest)
                      folder.index_mode = IndexMode.gemini_files
                      folder.gemini_files = successful_uploads
                      folder.status = FolderStatus.READY
                      folder.file_count = len(successful_uploads)
                      folder.indexed_at = datetime.utcnow()
                      await db.commit()
                      return
                  else:
                      print(... "falling back to RAG")
              except Exception as e:
                  print(... "falling back to RAG")
  \<close>
  The result is the world after an accepted fast path, or \<^const>\<open>None\<close> when the job
  goes on to the RAG path; nothing has been written then.
\<close>

definition fast_path ::
  "ingest_env \<Rightarrow> string \<Rightarrow> string \<Rightarrow> (drive_file \<times> bytes option) list \<Rightarrow> folder \<Rightarrow> world
     \<Rightarrow> world option" where
  "fast_path env user_id folder_id downloaded fo w =
     (let gemini_files = upload_files_to_gemini (extract_office (env_extractors env))
                           (env_upload_file env) downloaded;
          successful = successful_uploads gemini_files
      in if fast_path_accepted gemini_files
         then (let fast_manifest = map uploaded_entry successful
               in case vs_store_file_manifest env (w_chroma w) user_id folder_id fast_manifest of
                    Inl e \<Rightarrow> None
                  | Inr client \<Rightarrow>
                      Some (w\<lparr>w_chroma := client,
                              w_folder := Some (fo\<lparr>fo_index_mode := Some IndexMode_gemini_files,
                                                   fo_gemini_files := Some successful,
                                                   fo_status := READY,
                                                   fo_file_count := int (length successful),
                                                   fo_indexed_at := Some (env_utcnow env)\<rparr>)\<rparr>))
         else None)"

text \<open>
  The RAG path:
  \<^verbatim>\<open>
          all_documents, all_metadatas, all_ids, indexed_count = await process_files_parallel(downloaded)
          if all_documents:
              vector_store.add_documents(user_id=user_id, folder_id=folder_id, ...)
          vector_store.store_file_manifest(user_id, folder_id, file_manifest)
          folder.index_mode = IndexMode.chroma
          folder.status = FolderStatus.READY
          folder.file_count = indexed_count
          folder.indexed_at = datetime.utcnow()
          await db.commit()
  \<close>
  The result is the world reached and the exception raised, if any.
\<close>

definition rag_path ::
  "ingest_env \<Rightarrow> string \<Rightarrow> string \<Rightarrow> manifest_entry list \<Rightarrow> (drive_file \<times> bytes option) list
     \<Rightarrow> folder \<Rightarrow> world \<Rightarrow> world \<times> py_error option" where
  "rag_path env user_id folder_id file_manifest downloaded fo w =
     (case process_files_parallel (env_extractors env) downloaded of
        Inl e \<Rightarrow> (w, Some e)
      | Inr (all_chunks, indexed_count) \<Rightarrow>
          (case (if all_chunks \<noteq> []
                 then vs_add_documents env (w_chroma w) user_id folder_id all_chunks
                 else Inr (w_chroma w)) of
             Inl e \<Rightarrow> (w, Some e)
           | Inr client1 \<Rightarrow>
               (case vs_store_file_manifest env client1 user_id folder_id file_manifest of
                  Inl e \<Rightarrow> (w\<lparr>w_chroma := client1\<rparr>, Some e)
                | Inr client2 \<Rightarrow>
                    (w\<lparr>w_chroma := client2,
                       w_folder := Some (fo\<lparr>fo_index_mode := Some IndexMode_chroma,
                                            fo_status := READY,
                                            fo_file_count := indexed_count,
                                            fo_indexed_at := Some (env_utcnow env)\<rparr>)\<rparr>,
                     None))))"

text \<open>
  The body of the outer \<^verbatim>\<open>try\<close>:
  \<^verbatim>\<open>
          files = await drive_service.list_files(folder.drive_folder_id, recursive=True)
          file_manifest = [ {...} for f in files ]
          if not files:
              folder.status = FolderStatus.READY
              folder.file_count = 0
              folder.indexed_at = datetime.utcnow()
              await db.commit()
              return
          use_fast_path = should_use_fast_path(files)
          downloaded = await drive_service.download_files_parallel(files, max_concurrent=10)
          if use_fast_path: ...
          # RAG PATH (also used as fallback if fast path fails)
          ...
  \<close>
\<close>

definition ingest_body ::
  "ingest_env \<Rightarrow> string \<Rightarrow> string \<Rightarrow> folder \<Rightarrow> world \<Rightarrow> world \<times> py_error option" where
  "ingest_body env user_id folder_id fo w =
     (case env_list_files env of
        Inl e \<Rightarrow> (w, Some e)
      | Inr files \<Rightarrow>
          (let file_manifest = map listed_entry files
           in if files = []
              then (w\<lparr>w_folder := Some (fo\<lparr>fo_status := READY, fo_file_count := 0,
                                           fo_indexed_at := Some (env_utcnow env)\<rparr>)\<rparr>, None)
              else (let use_fast_path = should_use_fast_path files;
                        downloaded = download_files_parallel (env_download env) files
                    in if use_fast_path
                       then (case fast_path env user_id folder_id downloaded fo w of
                               Some w' \<Rightarrow> (w', None)
                             | None \<Rightarrow> rag_path env user_id folder_id file_manifest downloaded fo w)
                       else rag_path env user_id folder_id file_manifest downloaded fo w)))"

text \<open>
  \<^verbatim>\<open>
  async def ingest_folder(folder_id, user_id, refresh_token):
      ...
      async with async_session() as db:
          result = await db.execute(select(Folder).where(Folder.id == uuid.UUID(folder_id)))
          folder = result.scalar_one_or_none()
          if not folder:
              return
          folder.status = FolderStatus.INDEXING
          await db.commit()
          try:
              ...
          except Exception as e:
              folder.status = FolderStatus.FAILED
              await db.commit()
              raise e
  \<close>
  The result is the final world and the exception that the job raises, if any.
\<close>

definition set_status :: "FolderStatus \<Rightarrow> world \<Rightarrow> world" where
  "set_status s w = w\<lparr>w_folder := map_option (\<lambda>fo. fo\<lparr>fo_status := s\<rparr>) (w_folder w)\<rparr>"

definition ingest_folder ::
  "ingest_env \<Rightarrow> string \<Rightarrow> string \<Rightarrow> world \<Rightarrow> world \<times> py_error option" where
  "ingest_folder env folder_id user_id w =
     (case w_folder w of
        None \<Rightarrow> (w, None)
      | Some folder0 \<Rightarrow>
          (let fo = folder0\<lparr>fo_status := INDEXING\<rparr>;
               w1 = w\<lparr>w_folder := Some fo\<rparr>
           in case ingest_body env user_id folder_id fo w1 of
                (w2, None) \<Rightarrow> (w2, None)
              | (w2, Some e) \<Rightarrow> (set_status FAILED w2, Some e)))"

text \<open>An environment and a world for concrete instances.\<close>

definition text_file :: "string \<Rightarrow> drive_file" where
  "text_file n =
     \<lparr>f_id = ''id-'' @ n, f_name = n, f_path = Some n, f_mimeType = ''text/plain'',
      f_size = Some (PyStr ''12'')\<rparr>"

definition plain_extractors :: extractors where
  "plain_extractors =
     \<lparr>extract_text = (\<lambda>content mime_type. Inr content),
      extract_pdf_pages = (\<lambda>content. Inr [(1, content)]),
      extract_office = (\<lambda>mime_type content. Inr content)\<rparr>"

text \<open>
  In \<open>test_env files ok\<close> the listing answers \<open>files\<close>, every download succeeds, and
  the upload succeeds exactly for the file names in \<open>ok\<close>.
\<close>

definition test_env :: "drive_file list \<Rightarrow> string list \<Rightarrow> ingest_env" where
  "test_env files ok =
     \<lparr>env_list_files = Inr files,
      env_download = (\<lambda>i f. Downloaded ''hello world''),
      env_extractors = plain_extractors,
      env_upload_file = (\<lambda>content filename mime_type.
         if filename \<in> set ok then Inr (''https://files/'' @ filename)
         else Inl (Exception ''upload failed'')),
      env_json_dumps = json_dumps,
      env_chroma_error = None,
      env_utcnow = 7\<rparr>"

definition pending_world :: world where
  "pending_world =
     \<lparr>w_folder = Some \<lparr>fo_drive_folder_id = ''drive-1'', fo_status = PENDING,
                        fo_index_mode = None, fo_file_count = 0, fo_indexed_at = None,
                        fo_gemini_files = None\<rparr>,
      w_chroma = Map.empty\<rparr>"

text \<open>The same environment with the vector store out of reach.\<close>

definition store_down_env :: "drive_file list \<Rightarrow> string list \<Rightarrow> ingest_env" where
  "store_down_env files ok =
     (test_env files ok)\<lparr>env_chroma_error := Some (Exception ''chroma unreachable'')\<rparr>"

text \<open>
  For stating concrete runs: the upload results that the job obtains in an environment
  for the listed files, the test for a handle that is not \<^verbatim>\<open>None\<close>, and the
  environment in which five files are listed, all five uploads succeed and the vector
  store is out of reach.
\<close>

definition uploads_of :: "ingest_env \<Rightarrow> drive_file list \<Rightarrow> gemini_file list" where
  "uploads_of env files =
     upload_files_to_gemini (extract_office (env_extractors env)) (env_upload_file env)
       (download_files_parallel (env_download env) files)"

definition has_uri :: "gemini_file \<Rightarrow> bool" where
  "has_uri r = (gemini_uri r \<noteq> None)"

definition five_names :: "string list" where
  "five_names = [''a'', ''b'', ''c'', ''d'', ''e'']"

definition all_uploaded_store_down :: ingest_env where
  "all_uploaded_store_down = store_down_env (map text_file five_names) five_names"

subsection \<open>The RAG agent (\<^verbatim>\<open>hybrid_agent.HybridAgent\<close>)\<close>

definition RAG_SYSTEM_PROMPT :: string where
  "RAG_SYSTEM_PROMPT = py_join [CHR 0x0A]
     [''You are a helpful assistant that answers questions about documents stored in a folder.'',
      [],
      ''You have access to the following tools (call them by outputting JSON):'',
      ''1. list_files - Lists all files in the folder'',
      ''2. search_documents(query, n_results=10, file_name=None) - Semantic search across documents'',
      ''3. get_file_content(file_name) - Gets all content from a specific file'',
      [],
      ''CRITICAL RULES:'',
      ''1. ALWAYS start by calling list_files to see what's available'',
      ''2. If user asks about specific content, use search_documents with a good query'',
      ''3. Base answers ONLY on retrieved documents'',
      ''4. ALWAYS cite sources: [Source: filename]'',
      ''5. If information not found, say '' @ [dq] @ ''I couldn't find this in the provided documents'' @ [dq],
      [],
      ''OUTPUT FORMAT: For tool calls, output JSON like:'',
      ''{'' @ [dq] @ ''tool'' @ [dq] @ '': '' @ [dq] @ ''list_files'' @ [dq] @ ''}'',
      ''{'' @ [dq] @ ''tool'' @ [dq] @ '': '' @ [dq] @ ''search_documents'' @ [dq] @ '', '' @ [dq] @ ''query'' @ [dq] @ '': '' @ [dq] @ ''...'' @ [dq] @ '', '' @ [dq] @ ''n_results'' @ [dq] @ '': 10}'',
      ''{'' @ [dq] @ ''tool'' @ [dq] @ '': '' @ [dq] @ ''get_file_content'' @ [dq] @ '', '' @ [dq] @ ''file_name'' @ [dq] @ '': '' @ [dq] @ ''...'' @ [dq] @ ''}'',
      [],
      ''After getting results, provide your final answer with citations.'']"

text \<open>A message of the conversation: \<^verbatim>\<open>{"role": ..., "parts": [...]}\<close>.\<close>

record message =
  msg_role :: string
  msg_parts :: "string list"

text \<open>An earlier turn as the caller passes it: \<^verbatim>\<open>{"role": ..., "content": ...}\<close>.\<close>

record history_turn =
  turn_role :: string
  turn_content :: string

text \<open>
  \<^verbatim>\<open>re.search(r'\{[^{}]+\}', text)\<close>: the leftmost substring that is an opening brace,
  one or more characters that are not braces, and a closing brace. After an opening
  brace the run of non-brace characters is taken as far as it goes, since a shorter run
  cannot be followed by a brace.
\<close>

definition not_brace :: "char \<Rightarrow> bool" where
  "not_brace c = (c \<noteq> CHR ''{'' \<and> c \<noteq> CHR ''}'')"

fun re_search_object :: "string \<Rightarrow> string option" where
  "re_search_object [] = None"
| "re_search_object (c # cs) =
     (if c = CHR ''{''
         \<and> takeWhile not_brace cs \<noteq> []
         \<and> (case dropWhile not_brace cs of [] \<Rightarrow> False | d # ds \<Rightarrow> d = CHR ''}'')
      then Some (CHR ''{'' # takeWhile not_brace cs @ ''}'')
      else re_search_object cs)"

text \<open>
  \<^verbatim>\<open>
      def _parse_tool_call(self, text):
          json_match = re.search(r'\{[^{}]+\}', text)
          if json_match:
              try:
                  obj = json.loads(json_match.group())
                  if "tool" in obj:
                      return obj
              except json.JSONDecodeError:
                  pass
          return None
  \<close>
  \<open>loads_object\<close> is \<^verbatim>\<open>json.loads\<close> on a text in braces: the dictionary read, or
  \<^const>\<open>None\<close> for \<^verbatim>\<open>JSONDecodeError\<close>.
\<close>

definition parse_tool_call :: "(string \<Rightarrow> py_dict option) \<Rightarrow> string \<Rightarrow> py_dict option" where
  "parse_tool_call loads_object text =
     (case re_search_object text of
        None \<Rightarrow> None
      | Some json_match \<Rightarrow>
          (case loads_object json_match of
             None \<Rightarrow> None
           | Some obj \<Rightarrow> if map_of obj ''tool'' \<noteq> None then Some obj else None))"

text \<open>The dictionaries that \<^verbatim>\<open>_execute_tool\<close> returns, one constructor per shape.\<close>

record search_row =
  row_content :: string
  row_file_name :: py_value
  row_file_id :: py_value
  row_file_path :: py_value
  row_mime_type :: py_value
  row_chunk_index :: py_value
  row_page_number :: py_value

datatype tool_result =
  Files_result "(string \<times> string \<times> string) list" nat
| Search_result "search_row list" nat
| Content_result py_value "(string \<times> py_value \<times> py_value) list" nat
| Error_result string

text \<open>
  What the agent meets outside its own code: the chat model (given the history and the
  parts of the last message, it answers with a text or raises), \<^verbatim>\<open>json.loads\<close> and
  \<^verbatim>\<open>json.dumps\<close>, and the two functions of the vector store for the agent's user and
  folder. The search is given the query, the result count and the file-name filter as
  the tool call carries them.
\<close>

record agent_env =
  ag_send_message :: "message list \<Rightarrow> string list \<Rightarrow> py_error + string"
  ag_loads_object :: "string \<Rightarrow> py_dict option"
  ag_dumps_result :: "tool_result \<Rightarrow> string"
  ag_get_file_manifest :: "manifest_entry list"
  ag_search_documents :: "py_value \<Rightarrow> int \<Rightarrow> py_value \<Rightarrow> py_error + search_hit list"

text \<open>
  \<^verbatim>\<open>str(v)\<close> inside an f-string, and \<^verbatim>\<open>min(v, 20)\<close>, which raises \<^verbatim>\<open>TypeError\<close>
  unless \<open>v\<close> is a number. The text for \<open>PyOther\<close> stands for the representation of
  the container.
\<close>

definition py_str :: "py_value \<Rightarrow> string" where
  "py_str v =
     (case v of PyStr s \<Rightarrow> s | PyInt i \<Rightarrow> show_int i | PyNone \<Rightarrow> ''None''
      | PyOther \<Rightarrow> ''[...]'')"

definition py_min_20 :: "py_value \<Rightarrow> py_error + int" where
  "py_min_20 v = (case v of PyInt i \<Rightarrow> Inr (min i 20) | other \<Rightarrow> Inl TypeError)"

text \<open>
  \<^verbatim>\<open>
      def _execute_tool(self, tool_call):
          tool_name = tool_call.get("tool")
          if tool_name == "list_files":
              manifest = vector_store.get_file_manifest(self.user_id, self.folder_id)
              return {"files": [{"name": f["name"], "path": f.get("path", f["name"]),
                                 "type": f.get("mime_type", "")} for f in manifest],
                      "total": len(manifest)}
          elif tool_name == "search_documents":
              query = tool_call.get("query", "")
              n_results = min(tool_call.get("n_results", 10), 20)
              file_name = tool_call.get("file_name")
              results = vector_store.search_documents(
                  self.user_id, self.folder_id, query, n_results, file_name)
              return {"results": [{"content": r["content"],
                          "file_name": r["metadata"].get("file_name", "unknown"),
                          "file_id": r["metadata"].get("file_id", ""),
                          "file_path": r["metadata"].get("file_path", ""),
                          "mime_type": r["metadata"].get("mime_type", ""),
                          "chunk_index": r["metadata"].get("chunk_index", 0),
                          "page_number": r["metadata"].get("page_number")} for r in results],
                      "total_found": len(results)}
          elif tool_name == "get_file_content":
              file_name = tool_call.get("file_name", "")
              results = vector_store.search_documents(
                  self.user_id, self.folder_id, f"content from {file_name}", 50, file_name)
              return {"file_name": file_name,
                      "chunks": [{"content": r["content"],
                          "chunk_index": r["metadata"].get("chunk_index", 0),
                          "page_number": r["metadata"].get("page_number")} for r in results],
                      "total_chunks": len(results)}
          return {"error": f"Unknown tool: {tool_name}"}
  \<close>
\<close>

definition search_row_of :: "search_hit \<Rightarrow> search_row" where
  "search_row_of r =
     \<lparr>row_content = h_content r,
      row_file_name = dict_get (h_metadata r) ''file_name'' (PyStr ''unknown''),
      row_file_id = dict_get (h_metadata r) ''file_id'' (PyStr ''''),
      row_file_path = dict_get (h_metadata r) ''file_path'' (PyStr ''''),
      row_mime_type = dict_get (h_metadata r) ''mime_type'' (PyStr ''''),
      row_chunk_index = dict_get (h_metadata r) ''chunk_index'' (PyInt 0),
      row_page_number = dict_get (h_metadata r) ''page_number'' PyNone\<rparr>"

definition execute_tool :: "agent_env \<Rightarrow> py_dict \<Rightarrow> py_error + tool_result" where
  "execute_tool env tool_call =
     (let tool_name = dict_get tool_call ''tool'' PyNone
      in if tool_name = PyStr ''list_files''
         then (let manifest = ag_get_file_manifest env
               in Inr (Files_result (map (\<lambda>f. (m_name f, m_path f, m_mime_type f)) manifest)
                         (length manifest)))
         else if tool_name = PyStr ''search_documents''
         then (let query = dict_get tool_call ''query'' (PyStr '''')
               in case py_min_20 (dict_get tool_call ''n_results'' (PyInt 10)) of
                    Inl e \<Rightarrow> Inl e
                  | Inr n_results \<Rightarrow>
                      (let file_name = dict_get tool_call ''file_name'' PyNone
                       in case ag_search_documents env query n_results file_name of
                            Inl e \<Rightarrow> Inl e
                          | Inr results \<Rightarrow>
                              Inr (Search_result (map search_row_of results) (length results))))
         else if tool_name = PyStr ''get_file_content''
         then (let file_name = dict_get tool_call ''file_name'' (PyStr '''')
               in case ag_search_documents env (PyStr (''content from '' @ py_str file_name)) 50
                         file_name of
                    Inl e \<Rightarrow> Inl e
                  | Inr results \<Rightarrow>
                      Inr (Content_result file_name
                             (map (\<lambda>r. (h_content r,
                                         dict_get (h_metadata r) ''chunk_index'' (PyInt 0),
                                         dict_get (h_metadata r) ''page_number'' PyNone)) results)
                             (length results)))
         else Inr (Error_result (''Unknown tool: '' @ py_str tool_name)))"

text \<open>
  Citations:
  \<^verbatim>\<open>
              if "results" in tool_result:
                  for r in tool_result["results"]:
                      citation = {"file_name": r.get("file_name"), "file_id": r.get("file_id"),
                          "drive_file_id": r.get("file_id"), "chunk_index": r.get("chunk_index", 0),
                          "page_number": r.get("page_number"), "mime_type": r.get("mime_type", "")}
                      if not any(c.get("file_name") == citation["file_name"] for c in all_citations):
                          all_citations.append(citation)
  \<close>
\<close>

record citation =
  cit_file_name :: py_value
  cit_file_id :: py_value
  cit_drive_file_id :: py_value
  cit_chunk_index :: py_value
  cit_page_number :: py_value
  cit_mime_type :: py_value

definition citation_of :: "search_row \<Rightarrow> citation" where
  "citation_of r =
     \<lparr>cit_file_name = row_file_name r, cit_file_id = row_file_id r,
      cit_drive_file_id = row_file_id r, cit_chunk_index = row_chunk_index r,
      cit_page_number = row_page_number r, cit_mime_type = row_mime_type r\<rparr>"

fun add_citations :: "search_row list \<Rightarrow> citation list \<Rightarrow> citation list" where
  "add_citations [] all_citations = all_citations"
| "add_citations (r # rs) all_citations =
     (let citation = citation_of r
      in if \<not> list_ex (\<lambda>c. cit_file_name c = cit_file_name citation) all_citations
         then add_citations rs (all_citations @ [citation])
         else add_citations rs all_citations)"

definition cite_results :: "tool_result \<Rightarrow> citation list \<Rightarrow> citation list" where
  "cite_results tool_result all_citations =
     (case tool_result of
        Search_result results total_found \<Rightarrow> add_citations results all_citations
      | other \<Rightarrow> all_citations)"

text \<open>
  The answer of \<^verbatim>\<open>_chat_chroma_rag\<close>:
  \<^verbatim>\<open>{"content": ..., "citations": all_citations if all_citations else None}\<close>.
\<close>

record chat_answer =
  ans_content :: string
  ans_citations :: "citation list option"

definition answer :: "string \<Rightarrow> citation list \<Rightarrow> chat_answer" where
  "answer text all_citations =
     \<lparr>ans_content = text,
      ans_citations = (if all_citations \<noteq> [] then Some all_citations else None)\<rparr>"

definition APOLOGY :: string where
  "APOLOGY = ''I apologize, but I wasn't able to find the relevant information after several attempts.''"

text \<open>
  One pass through the body of the loop:
  \<^verbatim>\<open>
          for _ in range(max_iterations):
              def _generate():
                  chat = self.model.start_chat(history=messages[:-1] if len(messages) > 1 else [])
                  return chat.send_message(messages[-1]["parts"]).text
              response_text = await loop.run_in_executor(_executor, _generate)
              tool_call = self._parse_tool_call(response_text)
              if tool_call:
                  tool_result = self._execute_tool(tool_call)
                  if "results" in tool_result: ...
                  messages.append({"role": "model", "parts": [response_text]})
                  messages.append({"role": "user", "parts": [f"Tool result: {json.dumps(tool_result)}"]})
              else:
                  return {"content": response_text,
                          "citations": all_citations if all_citations else None}
  \<close>
  The pass ends the function with an answer, goes on to the next pass with longer
  messages and citations, or raises. The list of messages is never empty.
\<close>

datatype pass_outcome =
  Final chat_answer | Next_pass "message list" "citation list" | Raises py_error

definition generate :: "agent_env \<Rightarrow> message list \<Rightarrow> py_error + string" where
  "generate env messages =
     ag_send_message env (if 1 < length messages then butlast messages else [])
       (msg_parts (last messages))"

definition rag_pass :: "agent_env \<Rightarrow> message list \<Rightarrow> citation list \<Rightarrow> pass_outcome" where
  "rag_pass env messages all_citations =
     (case generate env messages of
        Inl e \<Rightarrow> Raises e
      | Inr response_text \<Rightarrow>
          (case parse_tool_call (ag_loads_object env) response_text of
             Some tool_call \<Rightarrow>
               (case execute_tool env tool_call of
                  Inl e \<Rightarrow> Raises e
                | Inr tool_result \<Rightarrow>
                    Next_pass
                      (messages @ [\<lparr>msg_role = ''model'', msg_parts = [response_text]\<rparr>,
                                   \<lparr>msg_role = ''user'',
                                    msg_parts = [''Tool result: '' @ ag_dumps_result env tool_result]\<rparr>])
                      (cite_results tool_result all_citations))
           | None \<Rightarrow> Final (answer response_text all_citations)))"

text \<open>
  The loop \<^verbatim>\<open>for _ in range(max_iterations)\<close> with the passes still allowed, followed
  by the return after the loop:
  \<^verbatim>\<open>
          return {"content": "I apologize, but ...",
                  "citations": all_citations if all_citations else None}
  \<close>
  The last argument counts the passes made so far. It is not a variable of the program;
  the function returns it beside the result so that the number of passes can be stated.
\<close>

fun rag_loop ::
  "agent_env \<Rightarrow> nat \<Rightarrow> message list \<Rightarrow> citation list \<Rightarrow> nat \<Rightarrow> (py_error + chat_answer) \<times> nat"
where
  "rag_loop env 0 messages all_citations passes = (Inr (answer APOLOGY all_citations), passes)"
| "rag_loop env (Suc remaining) messages all_citations passes =
     (case rag_pass env messages all_citations of
        Raises e \<Rightarrow> (Inl e, Suc passes)
      | Final a \<Rightarrow> (Inr a, Suc passes)
      | Next_pass messages' all_citations' \<Rightarrow>
          rag_loop env remaining messages' all_citations' (Suc passes))"

text \<open>
  \<^verbatim>\<open>
      async def _chat_chroma_rag(self, message, history):
          messages = [{"role": "user", "parts": [RAG_SYSTEM_PROMPT + "\n\nUser: " + message]}]
          if history:
              for msg in history:
                  role = "user" if msg["role"] == "user" else "model"
                  messages.append({"role": role, "parts": [msg["content"]]})
          all_citations = []
          max_iterations = 5
          ...
  \<close>
\<close>

definition max_iterations :: nat where
  "max_iterations = 5"

definition initial_messages :: "string \<Rightarrow> history_turn list option \<Rightarrow> message list" where
  "initial_messages message history =
     \<lparr>msg_role = ''user'',
      msg_parts = [RAG_SYSTEM_PROMPT @ [CHR 0x0A, CHR 0x0A] @ ''User: '' @ message]\<rparr>
     # (case history of
          None \<Rightarrow> []
        | Some turns \<Rightarrow>
            map (\<lambda>msg. \<lparr>msg_role = (if turn_role msg = ''user'' then ''user'' else ''model''),
                        msg_parts = [turn_content msg]\<rparr>) turns)"

definition chat_chroma_rag ::
  "agent_env \<Rightarrow> string \<Rightarrow> history_turn list option \<Rightarrow> (py_error + chat_answer) \<times> nat" where
  "chat_chroma_rag env message history =
     rag_loop env max_iterations (initial_messages message history) [] 0"

text \<open>
  The state after \<open>k\<close> passes that all ended in an executed tool call, if the first \<open>k\<close>
  passes are of that kind.
\<close>

fun tool_passes ::
  "agent_env \<Rightarrow> nat \<Rightarrow> message list \<Rightarrow> citation list \<Rightarrow> (message list \<times> citation list) option"
where
  "tool_passes env 0 messages all_citations = Some (messages, all_citations)"
| "tool_passes env (Suc k) messages all_citations =
     (case rag_pass env messages all_citations of
        Next_pass messages' all_citations' \<Rightarrow> tool_passes env k messages' all_citations'
      | other \<Rightarrow> None)"

text \<open>
  A scripted model for concrete instances: it answers every message with the same
  search tool call, and the store answers every search with the same two hits of one
  file.
\<close>

definition search_call_text :: string where
  "search_call_text = ''{'' @ json_key ''tool'' @ json_str ''search_documents'' @ ''}''"

definition always_search_env :: agent_env where
  "always_search_env =
     \<lparr>ag_send_message = (\<lambda>history parts. Inr search_call_text),
      ag_loads_object = (\<lambda>s. if s = search_call_text
                               then Some [(''tool'', PyStr ''search_documents'')] else None),
      ag_dumps_result = (\<lambda>r. ''{...}''),
      ag_get_file_manifest = [],
      ag_search_documents = (\<lambda>query n_results file_name.
         Inr [\<lparr>h_content = ''hello'',
               h_metadata = [(''file_name'', PyStr ''a.txt''), (''chunk_index'', PyInt 0)],
               h_distance = 1 / 4\<rparr>,
              \<lparr>h_content = ''world'',
               h_metadata = [(''file_name'', PyStr ''a.txt''), (''chunk_index'', PyInt 1)],
               h_distance = 1 / 2\<rparr>])\<rparr>"

section \<open>The chunker\<close>

subsection \<open>Integer ceilings\<close>

lemma ceil_div_ceiling: "ceil_div a b = \<lceil>real_of_int a / real_of_int b\<rceil>"
proof -
  have "\<lfloor>real_of_int (- a) / real_of_int b\<rfloor> = (- a) div b"
    by (rule floor_divide_of_int_eq)
  then show ?thesis
    unfolding ceil_div_def ceiling_def by simp
qed

lemma ceil_div_pos: "0 < b \<Longrightarrow> 0 < a \<Longrightarrow> 0 < ceil_div a b"
  unfolding ceil_div_def
  by (simp add: neg_imp_zdiv_neg_iff pos_imp_zdiv_neg_iff)

lemma ceil_div_step: "0 < b \<Longrightarrow> ceil_div (a - b) b = ceil_div a b - 1"
proof -
  assume "0 < b"
  then have "(- a + b) div b = (- a) div b + 1"
    by (simp only: div_add_self2)
  moreover have "- (a - b) = - a + b" by simp
  ultimately show ?thesis by (simp only: ceil_div_def)
qed

lemma ceil_div_one: "0 < a \<Longrightarrow> a \<le> b \<Longrightarrow> ceil_div a b = 1"
proof -
  assume a: "0 < a" "a \<le> b"
  have "- a = b * (- 1) + (b - a)" by simp
  then have "(- a) div b = - 1"
  proof (rule int_div_pos_eq)
    show "0 \<le> b - a" using a by simp
    show "b - a < b" using a by simp
  qed
  then show ?thesis by (simp add: ceil_div_def)
qed

lemma windows_left_step:
  assumes "0 < step" "start < n"
  shows "windows_left n start step = Suc (windows_left n (start + step) step)"
proof (cases "start + step < n")
  case True
  have eq: "n - (start + step) = (n - start) - step" by simp
  have "ceil_div (n - (start + step)) step = ceil_div (n - start) step - 1"
    unfolding eq by (rule ceil_div_step [OF assms(1)])
  moreover have "0 < ceil_div (n - (start + step)) step"
    using True assms(1) by (simp add: ceil_div_pos)
  ultimately show ?thesis
    using True assms(2) by (simp add: windows_left_def)
next
  case False
  have "0 < n - start" "n - start \<le> step" using assms(2) False by simp_all
  then have "ceil_div (n - start) step = 1" by (rule ceil_div_one)
  then show ?thesis using False assms(2) by (simp add: windows_left_def)
qed

lemma chunk_loop_closed:
  assumes "overlap < chunk_size"
  shows "chunk_loop text chunk_size overlap start chunks =
         Some (chunks @ map (window text chunk_size overlap start)
                            [0..<windows_left (int (length text)) start (chunk_size - overlap)])"
proof (induction "nat (int (length text) - start)" arbitrary: start chunks rule: less_induct)
  case less
  let ?n = "int (length text)" and ?s = "chunk_size - overlap"
  have s: "0 < ?s" using assms by simp
  show ?case
  proof (cases "start < ?n")
    case False
    then show ?thesis by (simp add: chunk_loop.simps windows_left_def)
  next
    case True
    have dec: "nat (?n - (start + ?s)) < nat (?n - start)" using True s by linarith
    have st: "start + chunk_size - overlap = start + ?s" by simp
    have unf: "chunk_loop text chunk_size overlap start chunks =
               chunk_loop text chunk_size overlap (start + ?s)
                 (chunks @ [py_slice text start (start + chunk_size)])"
      using True by (subst chunk_loop.simps) (simp only: st if_True)
    have w0: "window text chunk_size overlap start 0 = py_slice text start (start + chunk_size)"
      by (simp add: window_def)
    have wS: "\<And>k. window text chunk_size overlap start (Suc k) =
                   window text chunk_size overlap (start + ?s) k"
      by (simp add: window_def algebra_simps)
    show ?thesis
      unfolding unf less [OF dec] windows_left_step [OF s True] map_upt_Suc
      by (simp add: w0 wS)
  qed
qed


subsection \<open>What the loop computes\<close>

lemma py_slice_nonneg:
  assumes "0 \<le> a" "a \<le> b"
  shows "py_slice xs a b = take (nat (b - a)) (drop (nat a) xs)"
proof (cases "a < int (length xs)")
  case False
  then have "drop (nat a) xs = []" "drop (nat (min a (int (length xs)))) xs = []"
    using assms by simp_all
  then show ?thesis using assms by (simp add: py_slice_def py_index_def Let_def)
next
  case True
  show ?thesis
  proof (cases "b \<le> int (length xs)")
    case True
    then show ?thesis using assms \<open>a < int (length xs)\<close>
      by (simp add: py_slice_def py_index_def Let_def)
  next
    case False
    then have "length (drop (nat a) xs) \<le> nat (b - a)"
      and "length (drop (nat a) xs) \<le> nat (int (length xs) - a)"
      using assms by simp_all
    then have "take (nat (b - a)) (drop (nat a) xs) = drop (nat a) xs"
      and "take (nat (int (length xs) - a)) (drop (nat a) xs) = drop (nat a) xs"
      by (simp_all only: take_all)
    then show ?thesis using assms False \<open>a < int (length xs)\<close>
      by (simp add: py_slice_def py_index_def Let_def)
  qed
qed

lemma window_take_drop:
  assumes "0 \<le> overlap" "overlap < chunk_size"
  shows "window text chunk_size overlap 0 k =
         take (nat chunk_size) (drop (k * nat (chunk_size - overlap)) text)"
proof -
  let ?a = "int k * (chunk_size - overlap)"
  have a: "0 \<le> ?a" using assms by simp
  have b: "?a \<le> ?a + chunk_size" using assms by simp
  have n: "nat ?a = k * nat (chunk_size - overlap)"
    using assms by (simp add: nat_mult_distrib)
  show ?thesis
    using py_slice_nonneg [OF a b, of "text"] n unfolding window_def by simp
qed

lemma ceil_div_covers: "0 < b \<Longrightarrow> a \<le> ceil_div a b * b"
proof -
  assume b: "0 < b"
  have "b * ((- a) div b) + (- a) mod b = - a" by (rule mult_div_mod_eq)
  moreover have "0 \<le> (- a) mod b" using b by (rule pos_mod_sign)
  ultimately have "b * ((- a) div b) \<le> - a" by linarith
  then show ?thesis by (simp add: ceil_div_def mult.commute)
qed

lemma overlap_removed_prefix:
  assumes "w = s + ov"
  shows "take w text @ concat (map (\<lambda>k. drop ov (take w (drop (k * s) text))) [1..<Suc j])
         = take (j * s + w) text"
proof (induction j)
  case 0
  then show ?case by simp
next
  case (Suc j)
  have pos: "ov + Suc j * s = j * s + w" using assms by simp
  have "drop ov (take w (drop (Suc j * s) text)) = take s (drop (j * s + w) text)"
    using assms unfolding drop_take drop_drop pos by simp
  moreover have "take (Suc j * s + w) text = take (j * s + w) text @ take s (drop (j * s + w) text)"
    using take_add [of "j * s + w" s "text"] by (simp add: add.commute add.left_commute)
  ultimately show ?case using Suc by simp
qed


lemma chunk_loop_diverges_aux:
  "chunk_loop text chunk_size overlap start chunks = Some y \<Longrightarrow>
   \<not> (chunk_size \<le> overlap \<and> start < int (length text))"
proof (induction rule: chunk_loop.raw_induct [rotated 1, consumes 1, case_names step])
  case (step loop t chunk_size overlap start chunks y)
  show ?case
  proof
    assume bad: "chunk_size \<le> overlap \<and> start < int (length t)"
    with step(2) have "loop t chunk_size overlap (start + chunk_size - overlap)
                 (chunks @ [py_slice t start (start + chunk_size)]) = Some y"
      by simp
    from step(1) [OF this] bad show False by simp
  qed
qed

lemma chunk_loop_diverges:
  assumes "chunk_size \<le> overlap" "start < int (length text)"
  shows "chunk_loop text chunk_size overlap start chunks = None"
proof (cases "chunk_loop text chunk_size overlap start chunks")
  case None
  then show ?thesis .
next
  case (Some y)
  then show ?thesis using chunk_loop_diverges_aux [OF Some] assms by simp
qed

lemma chunk_text_closed:
  assumes "overlap < chunk_size"
  shows "chunk_text text chunk_size overlap =
         Some (if int (length text) \<le> chunk_size then [text]
               else map (window text chunk_size overlap 0)
                      [0..<windows_left (int (length text)) 0 (chunk_size - overlap)])"
  by (simp add: chunk_text_def chunk_loop_closed [OF assms])


lemma chunk_text_long:
  assumes ov: "0 \<le> overlap" "overlap < chunk_size"
    and long: "chunk_size < int (length text)"
  defines "m \<equiv> nat (ceil_div (int (length text)) (chunk_size - overlap))"
  defines "chunks \<equiv> map (\<lambda>k. take (nat chunk_size) (drop (k * nat (chunk_size - overlap)) text)) [0..<m]"
  shows "chunk_text text chunk_size overlap = Some chunks"
    and "int m = ceil_div (int (length text)) (chunk_size - overlap)"
    and "hd chunks @ concat (map (drop (nat overlap)) (tl chunks)) = text"
proof -
  let ?n = "int (length text)" and ?S = "chunk_size - overlap"
  let ?f = "\<lambda>k. take (nat chunk_size) (drop (k * nat ?S) text)"
  have S: "0 < ?S" using ov by simp
  have n: "0 < ?n" using ov long by linarith
  have cpos: "0 < ceil_div ?n ?S" using S n by (rule ceil_div_pos)
  then show m_int: "int m = ceil_div ?n ?S" by (simp add: m_def)
  have wl: "windows_left ?n 0 ?S = m" using n by (simp add: windows_left_def m_def)
  have "map (window text chunk_size overlap 0) [0..<m] = chunks"
    unfolding chunks_def by (rule map_cong) (simp_all add: window_take_drop [OF ov])
  then show "chunk_text text chunk_size overlap = Some chunks"
    using long by (simp add: chunk_text_closed [OF ov(2)] wl)
  obtain j where j: "m = Suc j" using cpos m_int by (cases m) simp_all
  have w: "nat chunk_size = nat ?S + nat overlap" using ov by simp
  have "?n \<le> ceil_div ?n ?S * ?S" using S by (rule ceil_div_covers)
  also have "\<dots> = int (m * nat ?S)" using m_int S by simp
  finally have "int (length text) \<le> int (m * nat ?S)" .
  then have cover: "length text \<le> m * nat ?S" by (simp only: of_nat_le_iff)
  have hd_c: "hd chunks = take (nat chunk_size) text"
    by (simp add: chunks_def j upt_conv_Cons del: upt_Suc)
  have tl_c: "tl chunks = map ?f [1..<Suc j]"
    by (simp add: chunks_def j map_tl [symmetric] del: upt_Suc)
  have "hd chunks @ concat (map (drop (nat overlap)) (tl chunks))
        = take (nat chunk_size) text
          @ concat (map (\<lambda>k. drop (nat overlap) (?f k)) [1..<Suc j])"
    unfolding hd_c tl_c by (simp add: comp_def del: upt_Suc)
  also have "\<dots> = take (j * nat ?S + nat chunk_size) text"
    by (rule overlap_removed_prefix [OF w])
  also have "\<dots> = text"
    using cover w by (simp add: j)
  finally show "hd chunks @ concat (map (drop (nat overlap)) (tl chunks)) = text" .
qed


lemma chunk_text_windows:
  assumes "0 \<le> overlap" and "overlap < chunk_size"
  shows "\<exists>chunks. chunk_text text chunk_size overlap = Some chunks
           \<and> (int (length text) \<le> chunk_size \<longrightarrow> chunks = [text])
           \<and> (chunk_size < int (length text) \<longrightarrow>
                int (length chunks)
                  = \<lceil>real (length text) / real_of_int (chunk_size - overlap)\<rceil>)
           \<and> chunks = map (\<lambda>k. take (nat chunk_size)
                                   (drop (k * nat (chunk_size - overlap)) text))
                           [0..<length chunks]
           \<and> map length chunks
               = map (\<lambda>k. min (nat chunk_size) (length text - k * nat (chunk_size - overlap)))
                     [0..<length chunks]
           \<and> hd chunks @ concat (map (drop (nat overlap)) (tl chunks)) = text"
proof (cases "int (length text) \<le> chunk_size")
  case True
  then have "chunk_text text chunk_size overlap = Some [text]"
    by (simp add: chunk_text_def)
  moreover have "length text \<le> nat chunk_size" using True by simp
  ultimately show ?thesis using True by simp
next
  case False
  then have long: "chunk_size < int (length text)" by simp
  define m where "m = nat (ceil_div (int (length text)) (chunk_size - overlap))"
  define chunks where
    "chunks = map (\<lambda>k. take (nat chunk_size) (drop (k * nat (chunk_size - overlap)) text)) [0..<m]"
  have f1: "chunk_text text chunk_size overlap = Some chunks"
    unfolding chunks_def m_def by (rule chunk_text_long(1) [OF assms long])
  have f2: "int m = ceil_div (int (length text)) (chunk_size - overlap)"
    unfolding m_def by (rule chunk_text_long(2) [OF assms long])
  have f3: "hd chunks @ concat (map (drop (nat overlap)) (tl chunks)) = text"
    unfolding chunks_def m_def by (rule chunk_text_long(3) [OF assms long])
  have len: "length chunks = m" by (simp add: chunks_def)
  have "int (length chunks) = \<lceil>real (length text) / real_of_int (chunk_size - overlap)\<rceil>"
    using f2 by (simp only: len ceil_div_ceiling of_int_of_nat_eq)
  moreover have "chunks = map (\<lambda>k. take (nat chunk_size)
                     (drop (k * nat (chunk_size - overlap)) text)) [0..<length chunks]"
    unfolding len by (rule chunks_def)
  moreover have "map length chunks
       = map (\<lambda>k. min (nat chunk_size) (length text - k * nat (chunk_size - overlap)))
             [0..<length chunks]"
    unfolding len by (simp add: chunks_def min.commute)
  ultimately show ?thesis using f1 f3 long by simp
qed

lemma chunk_text_default_defined:
  "chunk_text text CHUNK_SIZE CHUNK_OVERLAP = Some (chunk_text_default text)"
proof -
  have "CHUNK_OVERLAP < CHUNK_SIZE" by (simp add: CHUNK_OVERLAP_def CHUNK_SIZE_def)
  from chunk_text_closed [OF this, of "text"] show ?thesis
    by (simp add: chunk_text_default_def)
qed

text \<open>
  C1 (as amended). A text no longer than \<open>W\<close> gives the single chunk \<open>[T]\<close>. For
  \<open>0 \<le> O < W\<close> the chunker returns; a text longer than \<open>W\<close> gives
  \<open>\<lceil>len T / (W - O)\<rceil>\<close> chunks, the \<open>k\<close>-th being the window
  \<open>T[k (W - O) : k (W - O) + W]\<close>, of length \<open>min W (len T - k (W - O))\<close>; and the first
  chunk followed by the other chunks without their first \<open>O\<close> elements is \<open>T\<close>.
\<close>

theorem chunk_text_sliding_windows:
  "(int (length text) \<le> chunk_size \<longrightarrow> chunk_text text chunk_size overlap = Some [text])
   \<and> (0 \<le> overlap \<and> overlap < chunk_size \<longrightarrow>
        (\<exists>chunks. chunk_text text chunk_size overlap = Some chunks
           \<and> (chunk_size < int (length text) \<longrightarrow>
                int (length chunks)
                  = \<lceil>real (length text) / real_of_int (chunk_size - overlap)\<rceil>)
           \<and> chunks = map (\<lambda>k. take (nat chunk_size)
                                   (drop (k * nat (chunk_size - overlap)) text))
                           [0..<length chunks]
           \<and> map length chunks
               = map (\<lambda>k. min (nat chunk_size) (length text - k * nat (chunk_size - overlap)))
                     [0..<length chunks]
           \<and> hd chunks @ concat (map (drop (nat overlap)) (tl chunks)) = text))"
proof (intro conjI impI)
  assume "int (length text) \<le> chunk_size"
  then show "chunk_text text chunk_size overlap = Some [text]"
    by (simp add: chunk_text_def)
next
  assume "0 \<le> overlap \<and> overlap < chunk_size"
  then have "0 \<le> overlap" and "overlap < chunk_size" by simp_all
  from chunk_text_windows [OF this, of "text"]
  obtain chunks where "chunk_text text chunk_size overlap = Some chunks
           \<and> (int (length text) \<le> chunk_size \<longrightarrow> chunks = [text])
           \<and> (chunk_size < int (length text) \<longrightarrow>
                int (length chunks)
                  = \<lceil>real (length text) / real_of_int (chunk_size - overlap)\<rceil>)
           \<and> chunks = map (\<lambda>k. take (nat chunk_size)
                                   (drop (k * nat (chunk_size - overlap)) text))
                           [0..<length chunks]
           \<and> map length chunks
               = map (\<lambda>k. min (nat chunk_size) (length text - k * nat (chunk_size - overlap)))
                     [0..<length chunks]
           \<and> hd chunks @ concat (map (drop (nat overlap)) (tl chunks)) = text" ..
  then show "\<exists>chunks. chunk_text text chunk_size overlap = Some chunks
           \<and> (chunk_size < int (length text) \<longrightarrow>
                int (length chunks)
                  = \<lceil>real (length text) / real_of_int (chunk_size - overlap)\<rceil>)
           \<and> chunks = map (\<lambda>k. take (nat chunk_size)
                                   (drop (k * nat (chunk_size - overlap)) text))
                           [0..<length chunks]
           \<and> map length chunks
               = map (\<lambda>k. min (nat chunk_size) (length text - k * nat (chunk_size - overlap)))
                     [0..<length chunks]
           \<and> hd chunks @ concat (map (drop (nat overlap)) (tl chunks)) = text"
    by (intro exI [of _ chunks]) (elim conjE, intro conjI, assumption+)
qed

theorem chunk_text_sliding_windows_witness:
  "chunk_text ''abc'' 10 5 = Some [''abc'']
   \<and> chunk_text ''abcdefghijk'' 10 5 = Some [''abcdefghij'', ''fghijk'', ''k'']
   \<and> int (length [''abcdefghij'', ''fghijk'', ''k''])
       = \<lceil>real (length ''abcdefghijk'') / real_of_int (10 - 5)\<rceil>
   \<and> map length [''abcdefghij'', ''fghijk'', ''k''] = [10, 6, 1]
   \<and> hd [''abcdefghij'', ''fghijk'', ''k'']
       @ concat (map (drop (nat 5)) (tl [''abcdefghij'', ''fghijk'', ''k''])) = ''abcdefghijk''"
proof -
  have short: "chunk_text ''abc'' 10 5 = Some [''abc'']"
    using chunk_text_sliding_windows [of "''abc''" 10 5] by simp
  have v: "chunk_text ''abcdefghijk'' 10 5 = Some [''abcdefghij'', ''fghijk'', ''k'']"
    by (simp add: chunk_text_def chunk_loop.simps py_slice_def py_index_def)
  have "int (length [''abcdefghij'', ''fghijk'', ''k''])
          = \<lceil>real (length ''abcdefghijk'') / real_of_int (10 - 5)\<rceil>
        \<and> hd [''abcdefghij'', ''fghijk'', ''k'']
            @ concat (map (drop (nat 5)) (tl [''abcdefghij'', ''fghijk'', ''k'']))
            = ''abcdefghijk''"
    using chunk_text_sliding_windows [of "''abcdefghijk''" 10 5] unfolding v by simp
  then show ?thesis using short v by simp
qed

text \<open>
  C1 as stated fails at an 11-element text with window 10 and overlap 5: the loop emits
  three chunks, not \<open>\<lceil>(11 - 5) / (10 - 5)\<rceil> = 2\<close>, and the second chunk, which is not the
  last, has length 6.
\<close>

theorem chunk_text_count_counterexample:
  "(10::int) < int (length ''abcdefghijk'') \<and> (5::int) < 10
   \<and> chunk_text ''abcdefghijk'' 10 5 = Some [''abcdefghij'', ''fghijk'', ''k'']
   \<and> int (length [''abcdefghij'', ''fghijk'', ''k''])
       \<noteq> spec_chunk_count (length ''abcdefghijk'') 10 5
   \<and> length ([''abcdefghij'', ''fghijk'', ''k''] ! 1) \<noteq> 10"
  by (simp add: chunk_text_def chunk_loop.simps py_slice_def py_index_def spec_chunk_count_def)

text \<open>
  C9. The chunker returns whenever \<open>overlap < chunk_size\<close>. For a window size
  \<open>chunk_size \<ge> 0\<close>, a text strictly longer than \<open>chunk_size\<close> and an overlap
  \<open>\<ge> chunk_size\<close> the loop never ends: the step \<open>chunk_size - overlap\<close> is \<open>\<le> 0\<close>, so
  the start position does not increase and stays below the length of the text. The
  same holds for every non-empty text that is longer than \<open>chunk_size\<close>.
\<close>

theorem chunk_text_termination:
  "(overlap < chunk_size \<longrightarrow> (\<exists>chunks. chunk_text text chunk_size overlap = Some chunks))
   \<and> (0 \<le> chunk_size \<and> chunk_size < int (length text) \<and> chunk_size \<le> overlap \<longrightarrow>
        chunk_text text chunk_size overlap = None)
   \<and> (text \<noteq> [] \<and> chunk_size < int (length text) \<and> chunk_size \<le> overlap \<longrightarrow>
        chunk_text text chunk_size overlap = None)"
proof (intro conjI impI)
  assume "overlap < chunk_size"
  then show "\<exists>chunks. chunk_text text chunk_size overlap = Some chunks"
    by (simp add: chunk_text_closed)
next
  assume a: "text \<noteq> [] \<and> chunk_size < int (length text) \<and> chunk_size \<le> overlap"
  then have "chunk_loop text chunk_size overlap 0 [] = None"
    by (intro chunk_loop_diverges) simp_all
  then show "chunk_text text chunk_size overlap = None"
    using a by (simp add: chunk_text_def)
next
  assume a: "0 \<le> chunk_size \<and> chunk_size < int (length text) \<and> chunk_size \<le> overlap"
  then have "0 < int (length text)" by linarith
  then have "chunk_loop text chunk_size overlap 0 [] = None"
    using a by (intro chunk_loop_diverges) simp_all
  then show "chunk_text text chunk_size overlap = None"
    using a by (simp add: chunk_text_def)
qed

theorem chunk_text_termination_witness:
  "(\<exists>chunks. chunk_text ''abc'' 2 1 = Some chunks) \<and> chunk_text ''abc'' 2 2 = None
   \<and> chunk_text ''abc'' 2 5 = None"
  using chunk_text_termination [of 1 2 "''abc''"] chunk_text_termination [of 2 2 "''abc''"]
    chunk_text_termination [of 5 2 "''abc''"]
  by simp

section \<open>The path selector\<close>

lemma py_int_raises: "py_int v = Inl e \<Longrightarrow> e = ValueError \<or> e = TypeError"
  by (auto simp: py_int_def split: py_value.splits option.splits)

lemma py_sum_acc: "foldl (+) a xs = a + sum_list xs" for a :: int
  by (induction xs arbitrary: a) simp_all

lemma py_sum_sum_list: "py_sum xs = sum_list xs"
  by (simp add: py_sum_def py_sum_acc)

lemma no_file_too_large_iff:
  "no_file_too_large files \<longleftrightarrow> (\<forall>f\<in>set files. get_file_size f \<le> MAX_FILE_SIZE_BYTES)"
  by (induction files) auto

lemma should_use_fast_path_char:
  "should_use_fast_path files \<longleftrightarrow>
     int (length files) \<le> MAX_FILES_FOR_FAST_PATH
     \<and> sum_list (map get_file_size files) \<le> MAX_TOTAL_SIZE_BYTES
     \<and> (\<forall>f\<in>set files. get_file_size f \<le> MAX_FILE_SIZE_BYTES)"
  unfolding should_use_fast_path_def Let_def no_file_too_large_iff py_sum_sum_list
  by auto

lemma get_file_size_digits:
  "get_file_size (file_of_size (Some (PyStr ''10485760''))) = 10485760"
  by (simp add: get_file_size_def file_of_size_def py_int_def py_int_of_str_def int_strip_def
      is_int_space_def parse_unsigned_def int_max_str_digits_def is_digit_def digit_val_def)

lemma get_file_size_int: "get_file_size (file_of_size (Some (PyInt i))) = i"
  by (simp add: get_file_size_def file_of_size_def py_int_def)

text \<open>
  C2. The fast path is chosen exactly when there are at most 50 files, their sizes (as
  \<^verbatim>\<open>_get_file_size\<close> reads them) add up to at most 100 MiB, and none is larger than
  10 MiB. In particular it is chosen for 50 files of which one has exactly 10 MiB.
\<close>

theorem should_use_fast_path_iff:
  "(should_use_fast_path files \<longleftrightarrow>
      length files \<le> 50
      \<and> sum_list (map get_file_size files) \<le> 100 * 1024 * 1024
      \<and> (\<forall>f\<in>set files. get_file_size f \<le> 10 * 1024 * 1024))
   \<and> should_use_fast_path
        (file_of_size (Some (PyStr ''10485760'')) # replicate 49 (file_of_size (Some (PyInt 1024))))"
proof
  show iff: "should_use_fast_path files \<longleftrightarrow>
      length files \<le> 50
      \<and> sum_list (map get_file_size files) \<le> 100 * 1024 * 1024
      \<and> (\<forall>f\<in>set files. get_file_size f \<le> 10 * 1024 * 1024)" for files :: "'b drive_file_scheme list"
    unfolding should_use_fast_path_char
    by (simp add: MAX_FILES_FOR_FAST_PATH_def MAX_TOTAL_SIZE_BYTES_def MAX_FILE_SIZE_BYTES_def)
  show "should_use_fast_path
        (file_of_size (Some (PyStr ''10485760'')) # replicate 49 (file_of_size (Some (PyInt 1024))))"
    unfolding iff by (simp add: get_file_size_digits get_file_size_int sum_list_replicate)
qed

theorem should_use_fast_path_iff_witness:
  "should_use_fast_path (replicate 50 (file_of_size (Some (PyInt 1024))))
   \<and> \<not> should_use_fast_path (replicate 51 (file_of_size (Some (PyInt 1024))))
   \<and> should_use_fast_path [file_of_size (Some (PyInt (10 * 1024 * 1024)))]
   \<and> \<not> should_use_fast_path [file_of_size (Some (PyInt (10 * 1024 * 1024 + 1)))]
   \<and> \<not> should_use_fast_path (replicate 11 (file_of_size (Some (PyInt (10 * 1024 * 1024)))))"
  using should_use_fast_path_iff [of "replicate 50 (file_of_size (Some (PyInt 1024)))"]
    should_use_fast_path_iff [of "replicate 51 (file_of_size (Some (PyInt 1024)))"]
    should_use_fast_path_iff [of "[file_of_size (Some (PyInt (10 * 1024 * 1024)))]"]
    should_use_fast_path_iff [of "[file_of_size (Some (PyInt (10 * 1024 * 1024 + 1)))]"]
    should_use_fast_path_iff [of "replicate 11 (file_of_size (Some (PyInt (10 * 1024 * 1024))))"]
  by (simp add: get_file_size_int sum_list_replicate)

text \<open>
  C10. A descriptor whose \<^verbatim>\<open>size\<close> is absent, \<^verbatim>\<open>None\<close>, of a type that \<^verbatim>\<open>int()\<close>
  rejects, or a string on which \<^verbatim>\<open>int()\<close> raises \<^verbatim>\<open>ValueError\<close> has size 0: it adds
  nothing to the total, it passes the per-file check, and adding it to a list changes
  the decision only through the file count.
\<close>

theorem unreadable_size_is_zero:
  assumes "f_size f = None \<or> f_size f = Some PyNone \<or> f_size f = Some PyOther
           \<or> (\<exists>s. f_size f = Some (PyStr s) \<and> py_int_of_str s = None)"
  shows "get_file_size f = 0
         \<and> py_sum (map get_file_size (xs @ f # ys)) = py_sum (map get_file_size (xs @ ys))
         \<and> (should_use_fast_path (xs @ f # ys) \<longleftrightarrow>
              length (xs @ f # ys) \<le> 50 \<and> should_use_fast_path (xs @ ys))
         \<and> should_use_fast_path [f]"
proof -
  have z: "get_file_size f = 0"
    using assms by (auto simp: get_file_size_def py_int_def)
  have s: "py_sum (map get_file_size (xs @ f # ys)) = py_sum (map get_file_size (xs @ ys))"
    by (simp add: py_sum_sum_list z)
  have d: "should_use_fast_path (xs @ f # ys) \<longleftrightarrow>
             length (xs @ f # ys) \<le> 50 \<and> should_use_fast_path (xs @ ys)"
    unfolding should_use_fast_path_char
    by (auto simp: z MAX_FILES_FOR_FAST_PATH_def MAX_TOTAL_SIZE_BYTES_def MAX_FILE_SIZE_BYTES_def)
  have o: "should_use_fast_path [f]"
    unfolding should_use_fast_path_char
    by (simp add: z MAX_FILES_FOR_FAST_PATH_def MAX_TOTAL_SIZE_BYTES_def MAX_FILE_SIZE_BYTES_def)
  from z s d o show ?thesis by simp
qed

theorem unreadable_size_is_zero_witness:
  "py_int_of_str ''abc'' = None
   \<and> py_int_of_str (CHR 0x1C # ''12'') = None
   \<and> get_file_size (file_of_size (Some (PyStr ''abc''))) = 0
   \<and> get_file_size (file_of_size (Some (PyStr (CHR 0x1C # ''12'')))) = 0
   \<and> get_file_size (file_of_size None) = 0
   \<and> get_file_size (file_of_size (Some PyNone)) = 0
   \<and> should_use_fast_path [file_of_size (Some (PyStr ''abc''))]
   \<and> should_use_fast_path
        (replicate 49 (file_of_size (Some (PyInt 1024))) @ file_of_size (Some (PyStr ''abc'')) # [])"
proof -
  have p: "py_int_of_str ''abc'' = None"
    by (simp add: py_int_of_str_def int_strip_def is_int_space_def parse_unsigned_def is_digit_def)
  have q: "py_int_of_str (CHR 0x1C # ''12'') = None"
    by (simp add: py_int_of_str_def int_strip_def is_int_space_def parse_unsigned_def is_digit_def)
  have a: "f_size (file_of_size (Some (PyStr s))) = Some (PyStr s)" for s
    by (simp add: file_of_size_def)
  have b: "f_size (file_of_size None) = None"
    and c: "f_size (file_of_size (Some PyNone)) = Some PyNone"
    by (simp_all add: file_of_size_def)
  have base: "should_use_fast_path (replicate 49 (file_of_size (Some (PyInt 1024))))"
    unfolding should_use_fast_path_char
    by (simp add: get_file_size_int sum_list_replicate MAX_FILES_FOR_FAST_PATH_def
        MAX_TOTAL_SIZE_BYTES_def MAX_FILE_SIZE_BYTES_def)
  show ?thesis
    using unreadable_size_is_zero
            [of "file_of_size (Some (PyStr ''abc''))"
                "replicate 49 (file_of_size (Some (PyInt 1024)))" "[]"]
          unreadable_size_is_zero [of "file_of_size (Some (PyStr (CHR 0x1C # ''12'')))" "[]" "[]"]
          unreadable_size_is_zero [of "file_of_size None" "[]" "[]"]
          unreadable_size_is_zero [of "file_of_size (Some PyNone)" "[]" "[]"]
          p q a b c base
    by simp
qed

text \<open>
  A string that \<^verbatim>\<open>int()\<close> reads is not of this kind: a no-break space before the digit
  is skipped, and the size is the number read.
\<close>

lemma get_file_size_nbsp: "get_file_size (file_of_size (Some (PyStr (CHR 0xA0 # ''5'')))) = 5"
  by (simp add: get_file_size_def file_of_size_def py_int_def py_int_of_str_def int_strip_def
      is_int_space_def parse_unsigned_def int_max_str_digits_def is_digit_def digit_val_def)

section \<open>The manifest store and search\<close>

text \<open>
  C6. Whatever the client holds, a manifest stored for a user and folder is read back
  equal for the same user and folder, provided \<^verbatim>\<open>json.loads\<close> reads back what
  \<^verbatim>\<open>json.dumps\<close> wrote for this list. The stored record carries the serialisation of
  the whole list; only its document text, the summary, is cut to 50 names.
\<close>

theorem manifest_round_trip:
  assumes "loads (dumps files) = Inr files"
  shows "fst (get_file_manifest loads
                (store_file_manifest dumps client user_id folder_id files)
                user_id folder_id) = files
         \<and> get_metadatas (store_file_manifest dumps client user_id folder_id files)
              (get_collection_name user_id folder_id) (MANIFEST_PREFIX @ folder_id)
             = [[(''type'', PyStr ''manifest''), (''manifest_json'', PyStr (dumps files))]]"
  using assms
  by (simp add: get_file_manifest_def store_file_manifest_def get_collection_def Let_def
      upsert_def get_metadatas_def dict_get_def split: option.splits)

theorem manifest_round_trip_witness:
  "json_loads (json_dumps [entry_of_name ''a'', entry_of_name ''b c''])
     = Inr [entry_of_name ''a'', entry_of_name ''b c'']
   \<and> fst (get_file_manifest json_loads
            (store_file_manifest json_dumps Map.empty ''u-1'' ''f-1''
               [entry_of_name ''a'', entry_of_name ''b c''])
            ''u-1'' ''f-1'')
       = [entry_of_name ''a'', entry_of_name ''b c'']"
proof -
  have rt: "json_loads (json_dumps [entry_of_name ''a'', entry_of_name ''b c''])
     = Inr [entry_of_name ''a'', entry_of_name ''b c'']"
    by code_simp
  from rt manifest_round_trip [where loads = json_loads and dumps = json_dumps
      and files = "[entry_of_name ''a'', entry_of_name ''b c'']" and client = Map.empty
      and user_id = "''u-1''" and folder_id = "''f-1''"]
  show ?thesis by blast
qed

lemma manifest_summary_long:
  "50 < length files \<Longrightarrow>
   manifest_summary files =
     ''This folder contains '' @ show_nat (length files) @ '' files: ''
     @ py_join '', '' (map m_name (take 50 files))
     @ '' and '' @ show_nat (length files - 50) @ '' more files.''"
  by (simp add: manifest_summary_def)

lemma collect_hits_no_manifest:
  "collect_hits results rows documents = Inr hits \<Longrightarrow>
   \<forall>h\<in>set documents. map_of (h_metadata h) ''type'' \<noteq> Some (PyStr ''manifest'') \<Longrightarrow>
   \<forall>h\<in>set hits. map_of (h_metadata h) ''type'' \<noteq> Some (PyStr ''manifest'')"
proof (induction rows arbitrary: documents)
  case Nil
  then show ?case by simp
next
  case (Cons row rows)
  obtain i doc where row: "row = (i, doc)" by (cases row)
  note run = Cons.prems(1) [unfolded row collect_hits.simps]
  show ?case
  proof (cases "first_row_at (qr_metadatas results) i []")
    case (Inl e)
    with run show ?thesis by (simp only: sum.case sum.distinct)
  next
    case meta: (Inr meta)
    show ?thesis
    proof (cases "map_of meta ''type'' = Some (PyStr ''manifest'')")
      case True
      with run meta have "collect_hits results rows documents = Inr hits"
        by (simp only: sum.case if_True simp_thms)
      then show ?thesis using Cons.prems(2) by (rule Cons.IH)
    next
      case False
      show ?thesis
      proof (cases "first_row_at (qr_distances results) i 0")
        case (Inl e)
        with run meta False show ?thesis by (simp only: sum.case if_False sum.distinct)
      next
        case (Inr d)
        let ?docs = "documents @ [\<lparr>h_content = doc, h_metadata = meta, h_distance = d\<rparr>]"
        from run meta False Inr have "collect_hits results rows ?docs = Inr hits"
          by (simp only: sum.case if_False simp_thms)
        moreover have "\<forall>h\<in>set ?docs. map_of (h_metadata h) ''type'' \<noteq> Some (PyStr ''manifest'')"
          using Cons.prems(2) False by simp
        ultimately show ?thesis by (rule Cons.IH)
      qed
    qed
  qed
qed

text \<open>
  C5. Whatever the collection's query answers, for the filtered query or, when that one
  raises, for the unfiltered one, no hit that \<^verbatim>\<open>search_documents\<close> returns carries the
  metadata type \<^verbatim>\<open>manifest\<close>.
\<close>

theorem search_documents_excludes_manifest:
  assumes "search_documents collection_query query n_results file_name_filter = Inr hits"
  shows "\<forall>h\<in>set hits. map_of (h_metadata h) ''type'' \<noteq> Some (PyStr ''manifest'')"
proof -
  define results where
    "results = (case collection_query query n_results (Some (where_filter_of file_name_filter)) of
                  Inr r \<Rightarrow> Inr r
                | Inl e \<Rightarrow> collection_query query n_results None)"
  have unf: "search_documents collection_query query n_results file_name_filter =
        (case results of
           Inl e \<Rightarrow> Inl e
         | Inr r \<Rightarrow>
             if truthy_list (qr_documents r) \<and> hd (the (qr_documents r)) \<noteq> []
             then collect_hits r (enumerate 0 (hd (the (qr_documents r)))) []
             else Inr [])"
    by (simp only: search_documents_def Let_def results_def)
  show ?thesis
  proof (cases results)
    case (Inl e)
    with assms unf show ?thesis by simp
  next
    case (Inr r)
    show ?thesis
    proof (cases "truthy_list (qr_documents r) \<and> hd (the (qr_documents r)) \<noteq> []")
      case True
      with assms unf Inr
      have "collect_hits r (enumerate 0 (hd (the (qr_documents r)))) [] = Inr hits" by simp
      then show ?thesis by (rule collect_hits_no_manifest) simp
    next
      case False
      with assms unf Inr have "hits = []" by auto
      then show ?thesis by simp
    qed
  qed
qed

theorem search_documents_excludes_manifest_witness:
  "search_documents unfiltered_only_query ''hello'' 10 (Some ''a.txt'')
     = Inr [\<lparr>h_content = ''hello'',
             h_metadata = [(''file_name'', PyStr ''a.txt''), (''chunk_index'', PyInt 0)],
             h_distance = 1 / 2\<rparr>]
   \<and> map_of [(''file_name'', PyStr ''a.txt''), (''chunk_index'', PyInt 0)] ''type''
       \<noteq> Some (PyStr ''manifest'')"
proof -
  have v: "search_documents unfiltered_only_query ''hello'' 10 (Some ''a.txt'')
     = Inr [\<lparr>h_content = ''hello'',
             h_metadata = [(''file_name'', PyStr ''a.txt''), (''chunk_index'', PyInt 0)],
             h_distance = 1 / 2\<rparr>]"
    by (simp add: search_documents_def unfiltered_only_query_def where_filter_of_def
        truthy_list_def first_row_at_def py_nth_def enumerate_eq_zip upt_conv_Cons)
  from search_documents_excludes_manifest [OF v] v show ?thesis by simp
qed

section \<open>The downloader\<close>

lemma download_with_semaphore_fst: "fst (download_with_semaphore outcome file) = file"
  by (simp add: download_with_semaphore_def split: download_outcome.splits)

lemma download_with_semaphore_snd:
  "snd (download_with_semaphore outcome file)
     = (case outcome of Downloaded content \<Rightarrow> Some content | TimedOut \<Rightarrow> None | Raised e \<Rightarrow> None)"
  by (simp add: download_with_semaphore_def split: download_outcome.splits)

text \<open>
  C8. The result has one pair per input descriptor, in the order of the input, each
  pair carrying its descriptor; the content is that of the download, and \<^verbatim>\<open>None\<close> for
  a file whose download timed out or raised, whatever happened to the other files.
\<close>

theorem download_files_parallel_complete:
  "length (download_files_parallel attempt files) = length files
   \<and> map fst (download_files_parallel attempt files) = files
   \<and> (\<forall>i<length files.
         download_files_parallel attempt files ! i
           = (files ! i,
              case attempt i (files ! i) of
                Downloaded content \<Rightarrow> Some content | TimedOut \<Rightarrow> None | Raised e \<Rightarrow> None))"
proof (intro conjI allI impI)
  show "length (download_files_parallel attempt files) = length files"
    by (simp add: download_files_parallel_def)
  have "map fst (download_files_parallel attempt files) = map snd (enumerate 0 files)"
    by (simp add: download_files_parallel_def split_def comp_def download_with_semaphore_fst)
  then show "map fst (download_files_parallel attempt files) = files"
    by simp
  fix i assume "i < length files"
  then have "download_files_parallel attempt files ! i
               = download_with_semaphore (attempt i (files ! i)) (files ! i)"
    by (simp add: download_files_parallel_def nth_enumerate_eq)
  then show "download_files_parallel attempt files ! i
           = (files ! i,
              case attempt i (files ! i) of
                Downloaded content \<Rightarrow> Some content | TimedOut \<Rightarrow> None | Raised e \<Rightarrow> None)"
    using download_with_semaphore_fst [of "attempt i (files ! i)" "files ! i"]
      download_with_semaphore_snd [of "attempt i (files ! i)" "files ! i"]
    by (simp add: prod_eq_iff)
qed

theorem download_files_parallel_complete_witness:
  "length (download_files_parallel
     (\<lambda>i f. if i = 0 then TimedOut else if i = 1 then Raised (Exception ''ssl'') else Downloaded ''data'')
     [file_of_size None, file_of_size (Some PyNone), file_of_size (Some (PyInt 4))]) = 3
   \<and> map fst (download_files_parallel
     (\<lambda>i f. if i = 0 then TimedOut else if i = 1 then Raised (Exception ''ssl'') else Downloaded ''data'')
     [file_of_size None, file_of_size (Some PyNone), file_of_size (Some (PyInt 4))])
     = [file_of_size None, file_of_size (Some PyNone), file_of_size (Some (PyInt 4))]
   \<and> map snd (download_files_parallel
     (\<lambda>i f. if i = 0 then TimedOut else if i = 1 then Raised (Exception ''ssl'') else Downloaded ''data'')
     [file_of_size None, file_of_size (Some PyNone), file_of_size (Some (PyInt 4))])
     = [None, None, Some ''data'']"
proof -
  let ?att = "\<lambda>i (f :: drive_file). if i = 0 then TimedOut
                else if i = 1 then Raised (Exception ''ssl'') else Downloaded ''data''"
  let ?fs = "[file_of_size None, file_of_size (Some PyNone), file_of_size (Some (PyInt 4))]"
  note c = download_files_parallel_complete [of ?att ?fs]
  from c have len: "length (download_files_parallel ?att ?fs) = 3" by simp
  from c have fsts: "map fst (download_files_parallel ?att ?fs) = ?fs" by simp
  from c have nth: "\<forall>i<3. download_files_parallel ?att ?fs ! i
           = (?fs ! i, case ?att i (?fs ! i) of
                Downloaded content \<Rightarrow> Some content | TimedOut \<Rightarrow> None | Raised e \<Rightarrow> None)"
    by simp
  have "snd (download_files_parallel ?att ?fs ! 0) = None"
    and "snd (download_files_parallel ?att ?fs ! 1) = None"
    and "snd (download_files_parallel ?att ?fs ! 2) = Some ''data''"
    using nth by simp_all
  with len have "map snd (download_files_parallel ?att ?fs) = [None, None, Some ''data'']"
    by (simp add: list_eq_iff_nth_eq less_Suc_eq numeral_3_eq_3 eval_nat_numeral)
  with len fsts show ?thesis by simp
qed

section \<open>Folder ingestion\<close>

subsection \<open>The upload results\<close>

lemma upload_with_semaphore_uri:
  assumes "gemini_uri (upload_with_semaphore ex up file_meta content) = Some u"
  shows "\<exists>c n m. up c n m = Inr u"
proof -
  obtain c n m where t:
    "(if export_mime (f_mimeType file_meta) \<in> set OFFICE_MIMES_NEED_CONVERSION
      then convert_office_to_text ex content (export_mime (f_mimeType file_meta))
             (f_name file_meta)
      else (content, export_mime (f_mimeType file_meta), f_name file_meta)) = (c, n, m)"
    using prod_cases3 by blast
  have "upload_with_semaphore ex up file_meta content
       = (case up c m n of Inr uri \<Rightarrow> upload_result file_meta (Some uri)
                         | Inl e \<Rightarrow> upload_result file_meta None)"
    unfolding upload_with_semaphore_def Let_def t by simp
  with assms show ?thesis
    by (cases "up c m n") (auto simp: upload_result_def)
qed

lemma upload_tasks_uri:
  "r \<in> set (upload_tasks ex up xs) \<Longrightarrow> gemini_uri r = Some u \<Longrightarrow> \<exists>c n m. up c n m = Inr u"
proof (induction xs)
  case Nil
  then show ?case by simp
next
  case (Cons x xs)
  obtain file_meta content where x: "x = (file_meta, content)" by (cases x)
  show ?case
  proof (cases content)
    case None
    with Cons x show ?thesis by simp
  next
    case (Some c)
    with Cons.prems x
    have "r = upload_with_semaphore ex up file_meta c \<or> r \<in> set (upload_tasks ex up xs)"
      by simp
    then show ?thesis
      using Cons.IH Cons.prems(2) upload_with_semaphore_uri by blast
  qed
qed

lemma uri_truthy_handles:
  assumes "\<forall>c n m u. up c n m = Inr u \<longrightarrow> u \<noteq> []"
  shows "filter uri_truthy (upload_files_to_gemini ex up xs)
         = filter (\<lambda>r. gemini_uri r \<noteq> None) (upload_files_to_gemini ex up xs)"
proof (rule filter_cong [OF refl])
  fix r assume r: "r \<in> set (upload_files_to_gemini ex up xs)"
  show "uri_truthy r = (gemini_uri r \<noteq> None)"
  proof (cases "gemini_uri r")
    case None
    then show ?thesis by (simp add: uri_truthy_def)
  next
    case (Some u)
    with r upload_tasks_uri [of r ex up xs u] assms have "u \<noteq> []"
      by (auto simp: upload_files_to_gemini_def)
    with Some show ?thesis by (simp add: uri_truthy_def)
  qed
qed

lemma fast_path_accepted_iff:
  "fast_path_accepted rs \<longleftrightarrow>
     length rs \<le> 2 * length (successful_uploads rs) \<and> successful_uploads rs \<noteq> []"
proof (cases "rs = []")
  case True
  then show ?thesis by (simp add: fast_path_accepted_def successful_uploads_def)
next
  case False
  then have pos: "0 < real (length rs)" by simp
  have "1 / 2 \<le> real (length (successful_uploads rs)) / real (length rs)
        \<longleftrightarrow> real (length rs) \<le> 2 * real (length (successful_uploads rs))"
    using pos by (simp add: field_simps)
  also have "\<dots> \<longleftrightarrow> length rs \<le> 2 * length (successful_uploads rs)"
    by (metis of_nat_le_iff of_nat_mult of_nat_numeral)
  finally show ?thesis
    using False by (simp add: fast_path_accepted_def success_rate_def Let_def)
qed

subsection \<open>The status after the job\<close>

lemma rag_path_folder:
  "rag_path env user_id folder_id file_manifest downloaded fo w = (w2, r) \<Longrightarrow>
   (r = None \<and> map_option fo_index_mode (w_folder w2) = Some (Some IndexMode_chroma)
      \<and> map_option fo_status (w_folder w2) = Some READY)
   \<or> (r \<noteq> None \<and> w_folder w2 = w_folder w)"
  unfolding rag_path_def
  by (auto split: sum.splits prod.splits if_splits)

lemma fast_path_folder:
  "fast_path env user_id folder_id downloaded fo w = Some w2 \<Longrightarrow>
   map_option fo_status (w_folder w2) = Some READY
   \<and> map_option fo_index_mode (w_folder w2) = Some (Some IndexMode_gemini_files)"
  unfolding fast_path_def Let_def
  by (auto split: sum.splits if_splits)

lemma ingest_body_folder:
  assumes "ingest_body env user_id folder_id fo w = (w2, r)"
  shows "(r = None \<and> map_option fo_status (w_folder w2) = Some READY)
         \<or> (r \<noteq> None \<and> w_folder w2 = w_folder w)"
proof (cases "env_list_files env")
  case (Inl e)
  with assms show ?thesis by (auto simp: ingest_body_def)
next
  case (Inr files)
  show ?thesis
  proof (cases "files = []")
    case True
    with assms Inr show ?thesis by (auto simp: ingest_body_def)
  next
    case False
    let ?d = "download_files_parallel (env_download env) files"
    let ?rag = "rag_path env user_id folder_id (map listed_entry files) ?d fo w"
    have rag: "?rag = (w2, r) \<Longrightarrow> ?thesis"
      using rag_path_folder [of env user_id folder_id "map listed_entry files" ?d fo w w2 r]
      by auto
    show ?thesis
    proof (cases "should_use_fast_path files")
      case no: False
      with assms Inr False have "?rag = (w2, r)" by (simp add: ingest_body_def)
      then show ?thesis by (rule rag)
    next
      case yes: True
      show ?thesis
      proof (cases "fast_path env user_id folder_id ?d fo w")
        case None
        with assms Inr False yes have "?rag = (w2, r)" by (simp add: ingest_body_def)
        then show ?thesis by (rule rag)
      next
        case (Some w')
        with assms Inr False yes have "w2 = w'" "r = None" by (simp_all add: ingest_body_def)
        with fast_path_folder [OF Some] show ?thesis by simp
      qed
    qed
  qed
qed

text \<open>
  C3 (as amended). When the listing finds no file, the job ends with the folder READY,
  with file count 0 and no index mode set by the job. When an exception escapes the
  pipeline, the folder ends FAILED; when the job returns without raising, the folder
  ends READY.
\<close>

theorem ingest_folder_terminal_status:
  assumes "w_folder w = Some folder0"
  shows "(env_list_files env = Inr [] \<longrightarrow>
            ingest_folder env folder_id user_id w
              = (w\<lparr>w_folder := Some (folder0\<lparr>fo_status := READY, fo_file_count := 0,
                                             fo_indexed_at := Some (env_utcnow env)\<rparr>)\<rparr>, None))
         \<and> (snd (ingest_folder env folder_id user_id w) \<noteq> None \<longrightarrow>
              map_option fo_status (w_folder (fst (ingest_folder env folder_id user_id w)))
                = Some FAILED)
         \<and> (snd (ingest_folder env folder_id user_id w) = None \<longrightarrow>
              map_option fo_status (w_folder (fst (ingest_folder env folder_id user_id w)))
                = Some READY)"
proof (intro conjI impI)
  assume "env_list_files env = Inr []"
  then show "ingest_folder env folder_id user_id w
              = (w\<lparr>w_folder := Some (folder0\<lparr>fo_status := READY, fo_file_count := 0,
                                             fo_indexed_at := Some (env_utcnow env)\<rparr>)\<rparr>, None)"
    using assms by (simp add: ingest_folder_def ingest_body_def)
next
  let ?fo = "folder0\<lparr>fo_status := INDEXING\<rparr>"
  let ?w1 = "w\<lparr>w_folder := Some ?fo\<rparr>"
  obtain w2 r where body: "ingest_body env user_id folder_id ?fo ?w1 = (w2, r)"
    by (cases "ingest_body env user_id folder_id ?fo ?w1")
  have res: "ingest_folder env folder_id user_id w
               = (case r of None \<Rightarrow> (w2, None) | Some e \<Rightarrow> (set_status FAILED w2, Some e))"
    using assms body by (simp add: ingest_folder_def)
  note b = ingest_body_folder [OF body]
  {
    assume "snd (ingest_folder env folder_id user_id w) \<noteq> None"
    then obtain e where "r = Some e" using res by (cases r) auto
    with b res
    show "map_option fo_status (w_folder (fst (ingest_folder env folder_id user_id w)))
            = Some FAILED"
      by (simp add: set_status_def)
  next
    assume "snd (ingest_folder env folder_id user_id w) = None"
    then have "r = None" using res by (cases r) auto
    with b res
    show "map_option fo_status (w_folder (fst (ingest_folder env folder_id user_id w)))
            = Some READY"
      by simp
  }
qed

theorem ingest_folder_terminal_status_witness:
  "w_folder pending_world \<noteq> None
   \<and> ingest_folder (test_env [] []) ''f-1'' ''u-1'' pending_world
       = (pending_world\<lparr>w_folder :=
            Some (the (w_folder pending_world)\<lparr>fo_status := READY, fo_file_count := 0,
                                               fo_indexed_at := Some 7\<rparr>)\<rparr>, None)
   \<and> snd (ingest_folder ((test_env [] [])\<lparr>env_list_files := Inl (Exception ''drive'')\<rparr>)
           ''f-1'' ''u-1'' pending_world) = Some (Exception ''drive'')
   \<and> map_option fo_status
        (w_folder (fst (ingest_folder ((test_env [] [])\<lparr>env_list_files := Inl (Exception ''drive'')\<rparr>)
                          ''f-1'' ''u-1'' pending_world))) = Some FAILED"
proof -
  let ?down = "(test_env [] [])\<lparr>env_list_files := Inl (Exception ''drive'')\<rparr>"
  have f: "w_folder pending_world = Some (the (w_folder pending_world))"
    by (simp add: pending_world_def)
  have l: "env_list_files (test_env [] []) = Inr []" and n: "env_utcnow (test_env [] []) = 7"
    by (simp_all add: test_env_def)
  have r: "snd (ingest_folder ?down ''f-1'' ''u-1'' pending_world) = Some (Exception ''drive'')"
    by (simp add: ingest_folder_def ingest_body_def test_env_def pending_world_def)
  have a: "w_folder pending_world \<noteq> None" by (simp add: pending_world_def)
  have b: "ingest_folder (test_env [] []) ''f-1'' ''u-1'' pending_world
       = (pending_world\<lparr>w_folder :=
            Some (the (w_folder pending_world)\<lparr>fo_status := READY, fo_file_count := 0,
                                               fo_indexed_at := Some 7\<rparr>)\<rparr>, None)"
    using ingest_folder_terminal_status [OF f, of "test_env [] []" "''f-1''" "''u-1''"] l n
    by simp
  have c: "map_option fo_status
        (w_folder (fst (ingest_folder ?down ''f-1'' ''u-1'' pending_world))) = Some FAILED"
    using ingest_folder_terminal_status [OF f, of ?down "''f-1''" "''u-1''"] r
    by simp
  from a b c r show ?thesis by simp
qed

text \<open>
  C3 as stated fails for a folder without listable files: the job sets the status READY,
  not FAILED.
\<close>

theorem ingest_folder_empty_counterexample:
  "env_list_files (test_env [] []) = Inr []
   \<and> snd (ingest_folder (test_env [] []) ''f-1'' ''u-1'' pending_world) = None
   \<and> map_option fo_status
        (w_folder (fst (ingest_folder (test_env [] []) ''f-1'' ''u-1'' pending_world)))
       = Some READY
   \<and> READY \<noteq> FAILED"
  by (simp add: ingest_folder_def ingest_body_def test_env_def pending_world_def)

subsection \<open>Acceptance of the fast path\<close>

lemma set_status_folder:
  "map_option (\<lambda>fo. (fo_status fo, fo_index_mode fo)) (w_folder (set_status s w))
     = map_option (\<lambda>fo. (s, fo_index_mode fo)) (w_folder w)"
  by (cases "w_folder w") (simp_all add: set_status_def)

lemma uri_truthy_iff: "uri_truthy r \<longleftrightarrow> gemini_uri r \<noteq> None \<and> gemini_uri r \<noteq> Some []"
  by (cases "gemini_uri r") (simp_all add: uri_truthy_def)

lemma fast_path_store_down:
  "env_chroma_error env = Some e \<Longrightarrow> fast_path env user_id folder_id downloaded fo w = None"
  by (simp add: fast_path_def Let_def vs_store_file_manifest_def)

lemma rag_path_store_down:
  assumes "env_chroma_error env = Some e"
  shows "\<exists>w2 e'. rag_path env user_id folder_id file_manifest downloaded fo w = (w2, Some e')
                  \<and> w_folder w2 = w_folder w"
proof (cases "process_files_parallel (env_extractors env) downloaded")
  case (Inl e')
  then show ?thesis by (simp add: rag_path_def)
next
  case (Inr p)
  obtain all_chunks indexed_count where p: "p = (all_chunks, indexed_count)" by (cases p)
  show ?thesis
  proof (cases "all_chunks = []")
    case True
    with Inr p assms show ?thesis
      by (simp add: rag_path_def vs_store_file_manifest_def)
  next
    case False
    with Inr p assms show ?thesis
      by (simp add: rag_path_def vs_add_documents_def)
  qed
qed

text \<open>
  C4 (as amended). Let the folder exist and the listing find files for which the path
  selector chooses the fast path. The job accepts the fast path exactly when at least
  half of the upload results carry a URI that is neither \<^verbatim>\<open>None\<close> nor empty, at least
  one result does, and the manifest of the uploaded files can be stored: it then
  leaves the folder READY with index mode \<^verbatim>\<open>gemini_files\<close> and the successful
  uploads. Otherwise, also when storing the manifest raises, its result is that of the
  RAG path run from the folder as it was when indexing began, with nothing of the
  uploads kept.
\<close>

theorem fast_path_acceptance:
  assumes "w_folder w = Some folder0"
    and "env_list_files env = Inr files" and "files \<noteq> []" and "should_use_fast_path files"
  defines "downloaded \<equiv> download_files_parallel (env_download env) files"
  defines "results \<equiv> upload_files_to_gemini (extract_office (env_extractors env))
                        (env_upload_file env) downloaded"
  defines "handles \<equiv> filter (\<lambda>r. gemini_uri r \<noteq> None \<and> gemini_uri r \<noteq> Some []) results"
  defines "accepted \<equiv> 1 / 2 \<le> real (length handles) / real (length results) \<and> handles \<noteq> []
                        \<and> env_chroma_error env = None"
  shows "(accepted \<longrightarrow>
            ingest_folder env folder_id user_id w
              = (w\<lparr>w_chroma := store_file_manifest (env_json_dumps env) (w_chroma w) user_id
                                  folder_id (map uploaded_entry handles),
                    w_folder := Some (folder0\<lparr>fo_status := READY,
                                               fo_index_mode := Some IndexMode_gemini_files,
                                               fo_gemini_files := Some handles,
                                               fo_file_count := int (length handles),
                                               fo_indexed_at := Some (env_utcnow env)\<rparr>)\<rparr>,
                 None))
         \<and> (\<not> accepted \<longrightarrow>
              ingest_folder env folder_id user_id w
                = (case rag_path env user_id folder_id (map listed_entry files) downloaded
                          (folder0\<lparr>fo_status := INDEXING\<rparr>)
                          (w\<lparr>w_folder := Some (folder0\<lparr>fo_status := INDEXING\<rparr>)\<rparr>) of
                     (w2, None) \<Rightarrow> (w2, None)
                   | (w2, Some e) \<Rightarrow> (set_status FAILED w2, Some e)))
         \<and> (accepted \<longleftrightarrow>
              map_option (\<lambda>fo. (fo_status fo, fo_index_mode fo))
                (w_folder (fst (ingest_folder env folder_id user_id w)))
                = Some (READY, Some IndexMode_gemini_files))"
proof -
  let ?fo = "folder0\<lparr>fo_status := INDEXING\<rparr>"
  let ?w1 = "w\<lparr>w_folder := Some ?fo\<rparr>"
  let ?rag = "rag_path env user_id folder_id (map listed_entry files) downloaded ?fo ?w1"
  have succ: "successful_uploads results = handles"
    unfolding successful_uploads_def handles_def
    by (rule filter_cong [OF refl]) (rule uri_truthy_iff)
  have acc: "fast_path_accepted results \<and> env_chroma_error env = None \<longleftrightarrow> accepted"
  proof (cases "results = []")
    case True
    then show ?thesis
      by (simp add: fast_path_accepted_def successful_uploads_def accepted_def handles_def)
  next
    case False
    then show ?thesis
      by (simp add: fast_path_accepted_def success_rate_def Let_def succ accepted_def)
  qed
  have body: "ingest_body env user_id folder_id ?fo ?w1
               = (case fast_path env user_id folder_id downloaded ?fo ?w1 of
                    Some w' \<Rightarrow> (w', None) | None \<Rightarrow> ?rag)"
    using assms(2-4) unfolding downloaded_def by (simp add: ingest_body_def Let_def)
  have yes: "ingest_folder env folder_id user_id w
              = (w\<lparr>w_chroma := store_file_manifest (env_json_dumps env) (w_chroma w) user_id
                                  folder_id (map uploaded_entry handles),
                    w_folder := Some (folder0\<lparr>fo_status := READY,
                                               fo_index_mode := Some IndexMode_gemini_files,
                                               fo_gemini_files := Some handles,
                                               fo_file_count := int (length handles),
                                               fo_indexed_at := Some (env_utcnow env)\<rparr>)\<rparr>,
                 None)" if accepted
  proof -
    from that acc have a: "fast_path_accepted results" and c: "env_chroma_error env = None"
      by simp_all
    have "fast_path env user_id folder_id downloaded ?fo ?w1
            = Some (?w1\<lparr>w_chroma := store_file_manifest (env_json_dumps env) (w_chroma w) user_id
                                  folder_id (map uploaded_entry handles),
                    w_folder := Some (?fo\<lparr>fo_index_mode := Some IndexMode_gemini_files,
                                           fo_gemini_files := Some handles,
                                           fo_status := READY,
                                           fo_file_count := int (length handles),
                                           fo_indexed_at := Some (env_utcnow env)\<rparr>)\<rparr>)"
      using a c
      by (simp add: fast_path_def Let_def results_def [symmetric] succ vs_store_file_manifest_def)
    then show ?thesis
      using assms(1) by (simp add: ingest_folder_def Let_def body)
  qed
  have no: "ingest_folder env folder_id user_id w
                = (case ?rag of (w2, None) \<Rightarrow> (w2, None)
                   | (w2, Some e) \<Rightarrow> (set_status FAILED w2, Some e))" if "\<not> accepted"
  proof -
    have "fast_path env user_id folder_id downloaded ?fo ?w1 = None"
    proof (cases "env_chroma_error env")
      case (Some e)
      then show ?thesis by (rule fast_path_store_down)
    next
      case None
      with that acc have "\<not> fast_path_accepted results" by simp
      then show ?thesis by (simp add: fast_path_def Let_def results_def [symmetric])
    qed
    then show ?thesis
      using assms(1) by (simp add: ingest_folder_def Let_def body)
  qed
  have mode_no: "map_option (\<lambda>fo. (fo_status fo, fo_index_mode fo))
                   (w_folder (fst (ingest_folder env folder_id user_id w)))
                   \<noteq> Some (READY, Some IndexMode_gemini_files)" if "\<not> accepted"
  proof -
    obtain w2 r where rag: "?rag = (w2, r)" by (cases ?rag)
    show ?thesis
    proof (cases r)
      case None
      with rag_path_folder [OF rag]
      have "map_option fo_index_mode (w_folder w2) = Some (Some IndexMode_chroma)" by simp
      then show ?thesis
        unfolding no [OF that] rag None by (cases "w_folder w2") auto
    next
      case (Some e)
      show ?thesis
        unfolding no [OF that] rag Some
        by (cases "w_folder w2") (simp_all add: set_status_def)
    qed
  qed
  have mode_yes: "map_option (\<lambda>fo. (fo_status fo, fo_index_mode fo))
                   (w_folder (fst (ingest_folder env folder_id user_id w)))
                   = Some (READY, Some IndexMode_gemini_files)" if accepted
    unfolding yes [OF that] by simp
  from yes no mode_yes mode_no show ?thesis by blast
qed

subsection \<open>The test environment\<close>

lemma download_all_succeed:
  "download_files_parallel (\<lambda>i f. Downloaded c) files = map (\<lambda>f. (f, Some c)) files"
  by (simp add: download_files_parallel_def download_with_semaphore_def list_eq_iff_nth_eq
      nth_enumerate_eq)

lemma gemini_uri_upload_result: "gemini_uri (upload_result f u) = u"
  by (simp add: upload_result_def)

lemma upload_text_file:
  "upload_with_semaphore ex up (text_file n) c
     = (case up c n ''text/plain'' of Inr uri \<Rightarrow> upload_result (text_file n) (Some uri)
                                      | Inl e \<Rightarrow> upload_result (text_file n) None)"
  by (cases "up c n ''text/plain''")
     (simp_all add: upload_with_semaphore_def Let_def text_file_def export_mime_def
        OFFICE_MIMES_NEED_CONVERSION_def DOCX_MIME_def XLSX_MIME_def PPTX_MIME_def)

lemma test_env_results:
  "upload_files_to_gemini (extract_office (env_extractors (test_env fs ok)))
     (env_upload_file (test_env fs ok))
     (download_files_parallel (env_download (test_env fs ok)) (map text_file names))
   = map (\<lambda>n. upload_result (text_file n)
                 (if n \<in> set ok then Some (''https://files/'' @ n) else None)) names"
proof -
  have d: "download_files_parallel (env_download (test_env fs ok)) (map text_file names)
             = map (\<lambda>f. (f, Some ''hello world'')) (map text_file names)"
    unfolding test_env_def by (simp add: download_all_succeed)
  have "upload_tasks ex (env_upload_file (test_env fs ok))
          (map (\<lambda>f. (f, Some ''hello world'')) (map text_file names))
        = map (\<lambda>n. upload_result (text_file n)
                 (if n \<in> set ok then Some (''https://files/'' @ n) else None)) names" for ex
    by (induction names) (simp_all add: upload_text_file test_env_def)
  then show ?thesis
    unfolding d upload_files_to_gemini_def by simp
qed

lemma get_file_size_text_file: "get_file_size (text_file n) = 12"
  by (simp add: get_file_size_def text_file_def py_int_def py_int_of_str_def int_strip_def
      is_int_space_def parse_unsigned_def int_max_str_digits_def is_digit_def digit_val_def)

lemma text_files_fast_path:
  "length names \<le> 50 \<Longrightarrow> should_use_fast_path (map text_file names)"
  unfolding should_use_fast_path_char
  by (simp add: get_file_size_text_file comp_def sum_list_triv MAX_FILES_FOR_FAST_PATH_def
      MAX_TOTAL_SIZE_BYTES_def MAX_FILE_SIZE_BYTES_def)

text \<open>
  The witness runs the job on five text files of which three, two, none and all are
  uploaded (60\%, 40\%, 0\%, 100\%), and on four files of which two are uploaded (50\%).
\<close>

theorem fast_path_acceptance_witness:
  "map_option (\<lambda>fo. (fo_status fo, fo_index_mode fo)) (w_folder (fst (ingest_folder
       (test_env (map text_file [''a'', ''b'', ''c'', ''d'', ''e'']) [''a'', ''b'', ''c''])
       ''f-1'' ''u-1'' pending_world))) = Some (READY, Some IndexMode_gemini_files)
   \<and> map_option (\<lambda>fo. (fo_status fo, fo_index_mode fo)) (w_folder (fst (ingest_folder
       (test_env (map text_file [''a'', ''b'', ''c'', ''d'', ''e'']) [''a'', ''b''])
       ''f-1'' ''u-1'' pending_world))) \<noteq> Some (READY, Some IndexMode_gemini_files)
   \<and> map_option (\<lambda>fo. (fo_status fo, fo_index_mode fo)) (w_folder (fst (ingest_folder
       (test_env (map text_file [''a'', ''b'', ''c'', ''d'', ''e'']) [])
       ''f-1'' ''u-1'' pending_world))) \<noteq> Some (READY, Some IndexMode_gemini_files)
   \<and> map_option (\<lambda>fo. (fo_status fo, fo_index_mode fo)) (w_folder (fst (ingest_folder
       (test_env (map text_file [''a'', ''b'', ''c'', ''d'', ''e'']) [''a'', ''b'', ''c'', ''d'', ''e''])
       ''f-1'' ''u-1'' pending_world))) = Some (READY, Some IndexMode_gemini_files)
   \<and> map_option (\<lambda>fo. (fo_status fo, fo_index_mode fo)) (w_folder (fst (ingest_folder
       (test_env (map text_file [''a'', ''b'', ''c'', ''d'']) [''a'', ''b''])
       ''f-1'' ''u-1'' pending_world))) = Some (READY, Some IndexMode_gemini_files)"
proof -
  let ?five = "[''a'', ''b'', ''c'', ''d'', ''e'']" and ?four = "[''a'', ''b'', ''c'', ''d'']"
  have f: "w_folder pending_world = Some (the (w_folder pending_world))"
    by (simp add: pending_world_def)
  have l: "env_list_files (test_env fs ok) = Inr fs"
    and c: "env_chroma_error (test_env fs ok) = None" for fs ok
    by (simp_all add: test_env_def)
  have five: "map text_file ?five \<noteq> []" "should_use_fast_path (map text_file ?five)"
    and four: "map text_file ?four \<noteq> []" "should_use_fast_path (map text_file ?four)"
    using text_files_fast_path [of ?five] text_files_fast_path [of ?four] by simp_all
  note t5 = fast_path_acceptance [OF f l five,
      unfolded test_env_results c, THEN conjunct2, THEN conjunct2]
  note t4 = fast_path_acceptance [OF f l four,
      unfolded test_env_results c, THEN conjunct2, THEN conjunct2]
  show ?thesis
    using t5 [of "[''a'', ''b'', ''c'']" "''f-1''" "''u-1''"]
      t5 [of "[''a'', ''b'']" "''f-1''" "''u-1''"]
      t5 [of "[]" "''f-1''" "''u-1''"]
      t5 [of "[''a'', ''b'', ''c'', ''d'', ''e'']" "''f-1''" "''u-1''"]
      t4 [of "[''a'', ''b'']" "''f-1''" "''u-1''"]
    by (simp add: gemini_uri_upload_result)
qed

lemma store_down_results:
  "upload_files_to_gemini (extract_office (env_extractors (store_down_env fs ok)))
     (env_upload_file (store_down_env fs ok))
     (download_files_parallel (env_download (store_down_env fs ok)) (map text_file names))
   = map (\<lambda>n. upload_result (text_file n)
                 (if n \<in> set ok then Some (''https://files/'' @ n) else None)) names"
  using test_env_results [of fs ok names] by (simp add: store_down_env_def)

lemma ingest_folder_store_down:
  assumes "w_folder w = Some folder0" and "env_list_files env = Inr files" and "files \<noteq> []"
    and "env_chroma_error env = Some e"
  shows "map_option (\<lambda>fo. (fo_status fo, fo_index_mode fo))
           (w_folder (fst (ingest_folder env folder_id user_id w)))
         = Some (FAILED, fo_index_mode folder0)"
proof -
  let ?fo = "folder0\<lparr>fo_status := INDEXING\<rparr>"
  let ?w1 = "w\<lparr>w_folder := Some ?fo\<rparr>"
  let ?d = "download_files_parallel (env_download env) files"
  obtain w2 e' where
    rag: "rag_path env user_id folder_id (map listed_entry files) ?d ?fo ?w1 = (w2, Some e')"
    and fo: "w_folder w2 = w_folder ?w1"
    using rag_path_store_down [OF assms(4)] by blast
  have "ingest_body env user_id folder_id ?fo ?w1 = (w2, Some e')"
    using assms(2,3) rag fast_path_store_down [OF assms(4)]
    by (simp add: ingest_body_def Let_def)
  then have "ingest_folder env folder_id user_id w = (set_status FAILED w2, Some e')"
    using assms(1) by (simp add: ingest_folder_def Let_def)
  then show ?thesis using fo by (simp add: set_status_def)
qed

text \<open>
  C4 as stated fails when the vector store cannot be reached: all five uploads return a
  URI, so the ratio is 100\% and at least one upload succeeded, yet storing the manifest
  raises inside the fast-path attempt, the job goes on to the RAG path, which raises as
  well, and the folder ends FAILED with no index mode.
\<close>

theorem fast_path_store_down_counterexample:
  "should_use_fast_path (map text_file five_names)
   \<and> 1 / 2 \<le> real (length (filter has_uri
                       (uploads_of all_uploaded_store_down (map text_file five_names))))
               / real (length (uploads_of all_uploaded_store_down (map text_file five_names)))
   \<and> filter has_uri (uploads_of all_uploaded_store_down (map text_file five_names)) \<noteq> []
   \<and> map_option fo_status
         (w_folder (fst (ingest_folder all_uploaded_store_down ''f-1'' ''u-1'' pending_world)))
       = Some FAILED
   \<and> map_option fo_index_mode
         (w_folder (fst (ingest_folder all_uploaded_store_down ''f-1'' ''u-1'' pending_world)))
       = Some None"
proof -
  let ?env = "all_uploaded_store_down"
  have f: "w_folder pending_world = Some (the (w_folder pending_world))"
    and m: "fo_index_mode (the (w_folder pending_world)) = None"
    by (simp_all add: pending_world_def)
  have l: "env_list_files ?env = Inr (map text_file five_names)"
    and c: "env_chroma_error ?env = Some (Exception ''chroma unreachable'')"
    by (simp_all add: all_uploaded_store_down_def store_down_env_def test_env_def)
  have n: "map text_file five_names \<noteq> []" by (simp add: five_names_def)
  have fp: "should_use_fast_path (map text_file five_names)"
    by (rule text_files_fast_path) (simp add: five_names_def)
  have r: "filter has_uri (uploads_of ?env (map text_file five_names))
             = uploads_of ?env (map text_file five_names)"
    and len: "length (uploads_of ?env (map text_file five_names)) = 5"
    unfolding uploads_of_def all_uploaded_store_down_def store_down_results
    by (simp_all add: has_uri_def gemini_uri_upload_result five_names_def)
  from ingest_folder_store_down [OF f l n c, of "''f-1''" "''u-1''"] m
  have fin: "map_option fo_status
         (w_folder (fst (ingest_folder ?env ''f-1'' ''u-1'' pending_world))) = Some FAILED"
    "map_option fo_index_mode
         (w_folder (fst (ingest_folder ?env ''f-1'' ''u-1'' pending_world))) = Some None"
    by (auto simp: map_option_case split: option.splits)
  have ne: "uploads_of ?env (map text_file five_names) \<noteq> []"
    using len by auto
  from fp fin ne show ?thesis unfolding r len by simp
qed

section \<open>The RAG agent loop\<close>

lemma rag_loop_passes: "snd (rag_loop env k messages all_citations p) \<le> p + k"
proof (induction k arbitrary: messages all_citations p)
  case 0
  then show ?case by simp
next
  case (Suc k)
  show ?case
  proof (cases "rag_pass env messages all_citations")
    case (Final a)
    then show ?thesis by simp
  next
    case (Next_pass ms cs)
    with Suc [of ms cs "Suc p"] show ?thesis by simp
  next
    case (Raises e)
    then show ?thesis by simp
  qed
qed

lemma rag_loop_exhausted:
  "tool_passes env k messages all_citations = Some (ms, cs) \<Longrightarrow>
   rag_loop env k messages all_citations p = (Inr (answer APOLOGY cs), p + k)"
proof (induction k arbitrary: messages all_citations p)
  case 0
  then show ?case by simp
next
  case (Suc k)
  then obtain ms' cs' where
    pass: "rag_pass env messages all_citations = Next_pass ms' cs'"
    and rest: "tool_passes env k ms' cs' = Some (ms, cs)"
    by (cases "rag_pass env messages all_citations") simp_all
  from Suc.IH [OF rest, of "Suc p"] pass show ?case by simp
qed

lemma tool_passes_always:
  assumes "\<forall>ms cs. \<exists>ms' cs'. rag_pass env ms cs = Next_pass ms' cs'"
  shows "\<exists>ms' cs'. tool_passes env k messages all_citations = Some (ms', cs')"
proof (induction k arbitrary: messages all_citations)
  case 0
  then show ?case by simp
next
  case (Suc k)
  from assms obtain ms cs where "rag_pass env messages all_citations = Next_pass ms cs"
    by blast
  with Suc [of ms cs] show ?case by simp
qed

text \<open>
  C7. Whatever the model, the parser and the store do, the loop makes at most 5 passes
  and then the function has returned or raised. When the first 5 passes all end in an
  executed tool call, the function returns the fixed apology with the citations
  collected in these passes (\<^verbatim>\<open>None\<close> when there are none); this is the case in
  particular when every pass, from every state, ends in an executed tool call.
\<close>

theorem chat_chroma_rag_bounded:
  "snd (chat_chroma_rag env message history) \<le> 5
   \<and> (\<forall>ms cs. tool_passes env 5 (initial_messages message history) [] = Some (ms, cs) \<longrightarrow>
         chat_chroma_rag env message history
           = (Inr \<lparr>ans_content = APOLOGY,
                   ans_citations = (if cs \<noteq> [] then Some cs else None)\<rparr>, 5))
   \<and> ((\<forall>ms cs. \<exists>ms' cs'. rag_pass env ms cs = Next_pass ms' cs') \<longrightarrow>
        (\<exists>cs. chat_chroma_rag env message history
                = (Inr \<lparr>ans_content = APOLOGY,
                        ans_citations = (if cs \<noteq> [] then Some cs else None)\<rparr>, 5)))"
proof (intro conjI allI impI)
  show "snd (chat_chroma_rag env message history) \<le> 5"
    using rag_loop_passes [of env max_iterations "initial_messages message history" "[]" 0]
    by (simp add: chat_chroma_rag_def max_iterations_def)
next
  fix ms cs
  assume "tool_passes env 5 (initial_messages message history) [] = Some (ms, cs)"
  from rag_loop_exhausted [OF this, of 0]
  show "chat_chroma_rag env message history
           = (Inr \<lparr>ans_content = APOLOGY,
                   ans_citations = (if cs \<noteq> [] then Some cs else None)\<rparr>, 5)"
    by (simp add: chat_chroma_rag_def max_iterations_def answer_def)
next
  assume "\<forall>ms cs. \<exists>ms' cs'. rag_pass env ms cs = Next_pass ms' cs'"
  from tool_passes_always [OF this, of 5 "initial_messages message history" "[]"]
  obtain ms cs where "tool_passes env 5 (initial_messages message history) [] = Some (ms, cs)"
    by blast
  from rag_loop_exhausted [OF this, of 0]
  show "\<exists>cs. chat_chroma_rag env message history
                = (Inr \<lparr>ans_content = APOLOGY,
                        ans_citations = (if cs \<noteq> [] then Some cs else None)\<rparr>, 5)"
    by (auto simp: chat_chroma_rag_def max_iterations_def answer_def)
qed

lemma search_call_text_parsed:
  "parse_tool_call (ag_loads_object always_search_env) search_call_text
     = Some [(''tool'', PyStr ''search_documents'')]"
proof -
  have "re_search_object search_call_text = Some search_call_text"
    by (simp add: search_call_text_def json_key_def json_str_def json_escape_def dq_def bsl_def
        not_brace_def)
  then show ?thesis
    by (simp add: parse_tool_call_def always_search_env_def)
qed

lemma always_search_pass:
  "rag_pass always_search_env ms cs
     = Next_pass
         (ms @ [\<lparr>msg_role = ''model'', msg_parts = [search_call_text]\<rparr>,
                \<lparr>msg_role = ''user'', msg_parts = [''Tool result: {...}'']\<rparr>])
         (add_citations
            [\<lparr>row_content = ''hello'', row_file_name = PyStr ''a.txt'', row_file_id = PyStr [],
              row_file_path = PyStr [], row_mime_type = PyStr [], row_chunk_index = PyInt 0,
              row_page_number = PyNone\<rparr>,
             \<lparr>row_content = ''world'', row_file_name = PyStr ''a.txt'', row_file_id = PyStr [],
              row_file_path = PyStr [], row_mime_type = PyStr [], row_chunk_index = PyInt 1,
              row_page_number = PyNone\<rparr>] cs)"
proof -
  have g: "generate always_search_env ms = Inr search_call_text"
    by (simp add: generate_def always_search_env_def)
  have e: "execute_tool always_search_env [(''tool'', PyStr ''search_documents'')]
        = Inr (Search_result
            [\<lparr>row_content = ''hello'', row_file_name = PyStr ''a.txt'', row_file_id = PyStr [],
              row_file_path = PyStr [], row_mime_type = PyStr [], row_chunk_index = PyInt 0,
              row_page_number = PyNone\<rparr>,
             \<lparr>row_content = ''world'', row_file_name = PyStr ''a.txt'', row_file_id = PyStr [],
              row_file_path = PyStr [], row_mime_type = PyStr [], row_chunk_index = PyInt 1,
              row_page_number = PyNone\<rparr>] 2)"
    by (simp add: execute_tool_def always_search_env_def dict_get_def py_min_20_def
        search_row_of_def)
  have d: "ag_dumps_result always_search_env r = ''{...}''" for r
    by (simp add: always_search_env_def)
  show ?thesis
    unfolding rag_pass_def g sum.case search_call_text_parsed option.case e d cite_results_def
      tool_result.case
    by simp
qed

lemma always_search_citations:
  "ans_citations (projr (fst (chat_chroma_rag always_search_env ''hi'' None)))
     = Some [\<lparr>cit_file_name = PyStr ''a.txt'', cit_file_id = PyStr [],
              cit_drive_file_id = PyStr [], cit_chunk_index = PyInt 0,
              cit_page_number = PyNone, cit_mime_type = PyStr []\<rparr>]"
  by (simp add: chat_chroma_rag_def max_iterations_def eval_nat_numeral always_search_pass
      citation_of_def answer_def Let_def)

theorem chat_chroma_rag_bounded_witness:
  "snd (chat_chroma_rag always_search_env ''hi'' None) \<le> 5
   \<and> (\<exists>cs. chat_chroma_rag always_search_env ''hi'' None
             = (Inr \<lparr>ans_content = APOLOGY,
                     ans_citations = (if cs \<noteq> [] then Some cs else None)\<rparr>, 5))
   \<and> ans_citations (projr (fst (chat_chroma_rag always_search_env ''hi'' None)))
       = Some [\<lparr>cit_file_name = PyStr ''a.txt'', cit_file_id = PyStr [],
                cit_drive_file_id = PyStr [], cit_chunk_index = PyInt 0,
                cit_page_number = PyNone, cit_mime_type = PyStr []\<rparr>]"
proof -
  have "\<forall>ms cs. \<exists>ms' cs'. rag_pass always_search_env ms cs = Next_pass ms' cs'"
    by (simp add: always_search_pass)
  with chat_chroma_rag_bounded [of always_search_env "''hi''" None] always_search_citations
  show ?thesis by blast
qed

end
